theory Spec2Isabelle
  imports Complex_Main
begin

section \<open>Dense matrices and row operations\<close>

text \<open>
  The connectivity code of \<^verbatim>\<open>src/unnamed/part_000\<close> (class \<^verbatim>\<open>Coherency\<close>) works on
  Eigen matrices. A dynamic matrix carries its two dimensions and its coefficients, row
  by row; a default-constructed matrix is 0 x 0. The scalar type \<^verbatim>\<open>double\<close> is read as
  \<^typ>\<open>real\<close> and \<^verbatim>\<open>std::complex<double>\<close> as \<^typ>\<open>complex\<close>: rounding, infinities and
  NaN are outside this development. The C++ type \<^verbatim>\<open>int\<close> is read as \<^typ>\<open>int\<close>: the
  values are matrix dimensions and indices, far from the 32-bit range. A violated Eigen
  or Qt precondition (an index out of range, operands of different sizes, a reduction of
  an empty row) is the result \<^term>\<open>None\<close>; it stands for the failed assertion of a
  debug build.
\<close>

record 'a matrix =
  rows :: nat
  cols :: nat
  coeffs :: "'a list list"

definition empty_matrix :: "'a matrix" where
  "empty_matrix = \<lparr>rows = 0, cols = 0, coeffs = []\<rparr>"

definition mk_matrix :: "nat \<Rightarrow> nat \<Rightarrow> 'a list list \<Rightarrow> 'a matrix" where
  "mk_matrix r c xss = \<lparr>rows = r, cols = c, coeffs = xss\<rparr>"

text \<open>A matrix is well formed when its coefficient rows agree with its dimensions.\<close>

definition wf_matrix :: "'a matrix \<Rightarrow> bool" where
  "wf_matrix M \<longleftrightarrow>
     length (coeffs M) = rows M \<and> list_all (\<lambda>r. length r = cols M) (coeffs M)"

definition same_dims :: "'a matrix \<Rightarrow> 'b matrix \<Rightarrow> bool" where
  "same_dims A B \<longleftrightarrow> rows A = rows B \<and> cols A = cols B"

text \<open>\<^verbatim>\<open>row.mean()\<close> and \<^verbatim>\<open>row.array() - row.mean()\<close>.\<close>

definition mean :: "real list \<Rightarrow> real" where
  "mean xs = sum_list xs / real (length xs)"

definition demean :: "real list \<Rightarrow> real list" where
  "demean xs = map (\<lambda>x. x - mean xs) xs"

text \<open>\<^verbatim>\<open>cwiseAbs2().sum()\<close> of a vector.\<close>

definition sum_abs2 :: "real list \<Rightarrow> real" where
  "sum_abs2 ws = sum_list (map (\<lambda>w. \<bar>w\<bar> ^ 2) ws)"

text \<open>\<^verbatim>\<open>M.colwise().sum()\<close> for a matrix with \<open>n\<close> columns given by its rows.\<close>

definition colwise_sum :: "nat \<Rightarrow> 'a::comm_monoid_add list list \<Rightarrow> 'a list" where
  "colwise_sum n xss = map (\<lambda>k. sum_list (map (\<lambda>r. r ! k) xss)) [0..<n]"

text \<open>
  \<^verbatim>\<open>row(0) /= 2.0; if (bNfftEven) row.tail(1) /= 2.0;\<close> The two updates follow each
  other, so a row with a single bin and an even length is divided twice.
\<close>

definition halve_ends :: "bool \<Rightarrow> 'a::field list \<Rightarrow> 'a list" where
  "halve_ends bNfftEven xs =
     (let ys = xs[0 := xs ! 0 / 2]
      in if bNfftEven then ys[length ys - 1 := ys ! (length ys - 1) / 2] else ys)"

text \<open>Coefficient-wise operations on whole matrices.\<close>

definition cwiseSqrt :: "real matrix \<Rightarrow> real matrix" where
  "cwiseSqrt M = M\<lparr>coeffs := map (map sqrt) (coeffs M)\<rparr>"

definition mat_add :: "'a::plus matrix \<Rightarrow> 'a matrix \<Rightarrow> 'a matrix" where
  "mat_add A B = A\<lparr>coeffs := map2 (map2 (+)) (coeffs A) (coeffs B)\<rparr>"

definition cwiseQuotient :: "complex matrix \<Rightarrow> real matrix \<Rightarrow> complex matrix" where
  "cwiseQuotient A B =
     A\<lparr>coeffs := map2 (map2 (\<lambda>z d. z / complex_of_real d)) (coeffs A) (coeffs B)\<rparr>"

section \<open>Trial data, settings and tapers\<close>

text \<open>
  \<^verbatim>\<open>ConnectivityTrialData\<close> holds the samples of one trial (channels x samples) and the
  spectra stored for it; \<^verbatim>\<open>ConnectivitySettings\<close> holds the trial list, the configured
  FFT length, the window type and the running sums (\<^verbatim>\<open>data.matPsdSum\<close>,
  \<^verbatim>\<open>data.vecPairCsdSum\<close>). Only the fields that \<^verbatim>\<open>Coherency\<close> reads or writes appear.
  A taper set is the pair returned by \<^verbatim>\<open>Spectral::generateTapers\<close>: the taper
  matrix (tapers x samples) and the vector of taper weights.
\<close>

record ConnectivityTrialData =
  matData :: "real matrix"
  matPsd :: "real matrix"
  vecPairCsd :: "(int \<times> complex matrix) list"

record IntermediateSumData =
  matPsdSum :: "real matrix"
  vecPairCsdSum :: "(int \<times> complex matrix) list"

record ConnectivitySettings =
  m_dataList :: "ConnectivityTrialData list"
  m_iNfft :: int
  m_sWindowType :: string
  data :: IntermediateSumData

type_synonym tapers = "real matrix \<times> real list"

text \<open>
  The forward FFT of Eigen with the half-spectrum flag is a parameter \<open>fft\<close> of the
  model: \<open>fft n x\<close> is the vector that \<^verbatim>\<open>fft.fwd(dst, x, n)\<close> stores in \<open>dst\<close>.
\<close>

type_synonym fft_fwd = "int \<Rightarrow> real list \<Rightarrow> complex list"

section \<open>Coherency::compute\<close>

text \<open>
  The early return of \<^verbatim>\<open>compute\<close>: the trial already stores a CSD list of
  \<open>iNRows\<close> entries and a PSD matrix of \<open>iNRows\<close> x \<open>iNFreqs\<close>.
\<close>

definition already_computed :: "ConnectivityTrialData \<Rightarrow> int \<Rightarrow> int \<Rightarrow> bool" where
  "already_computed inputData iNRows iNFreqs \<longleftrightarrow>
     int (length (vecPairCsd inputData)) = iNRows \<and>
     int (rows (matPsd inputData)) = iNRows \<and>
     int (cols (matPsd inputData)) = iNFreqs"

text \<open>
  The tapered spectra of one demeaned channel row (the inner loop over the tapers):
  row \<open>j\<close> is the FFT of the row multiplied by taper \<open>j\<close>, scaled by the weight of
  taper \<open>j\<close>.
\<close>

definition tapered_input :: "tapers \<Rightarrow> real list \<Rightarrow> nat \<Rightarrow> real list" where
  "tapered_input tapers rowData j = map2 (*) rowData (coeffs (fst tapers) ! j)"

definition matTapSpectrum :: "fft_fwd \<Rightarrow> int \<Rightarrow> tapers \<Rightarrow> real list \<Rightarrow> complex list list" where
  "matTapSpectrum fft iNfft tapers rowData =
     map (\<lambda>j. map (\<lambda>z. z * complex_of_real (snd tapers ! j))
                 (fft iNfft (tapered_input tapers rowData j)))
         [0..<rows (fst tapers)]"

text \<open>\<^verbatim>\<open>vecTapSpectra\<close>: the tapered spectra of channel \<open>i\<close> of the trial.\<close>

definition tapSpectra :: "fft_fwd \<Rightarrow> int \<Rightarrow> tapers \<Rightarrow> real matrix \<Rightarrow> nat \<Rightarrow> complex list list" where
  "tapSpectra fft iNfft tapers D i = matTapSpectrum fft iNfft tapers (demean (coeffs D ! i))"

definition denomPSD :: "tapers \<Rightarrow> real" where
  "denomPSD tapers = sum_abs2 (snd tapers) / 2"

definition denomCSD :: "tapers \<Rightarrow> real" where
  "denomCSD tapers = sqrt (sum_abs2 (snd tapers)) * sqrt (sum_abs2 (snd tapers)) / 2"

text \<open>Row \<open>i\<close> of the PSD matrix of the trial.\<close>

definition psd_row :: "fft_fwd \<Rightarrow> int \<Rightarrow> nat \<Rightarrow> tapers \<Rightarrow> real matrix \<Rightarrow> nat \<Rightarrow> real list" where
  "psd_row fft iNfft nFreqs tapers D i =
     halve_ends (iNfft mod 2 = 0)
       (map (\<lambda>x. x / denomPSD tapers)
          (colwise_sum nFreqs (map (map (\<lambda>z. (cmod z) ^ 2)) (tapSpectra fft iNfft tapers D i))))"

text \<open>The CSD row of the channels \<open>i\<close> and \<open>j\<close>.\<close>

definition csd_row :: "fft_fwd \<Rightarrow> int \<Rightarrow> nat \<Rightarrow> tapers \<Rightarrow> real matrix \<Rightarrow> nat \<Rightarrow> nat \<Rightarrow> complex list" where
  "csd_row fft iNfft nFreqs tapers D i j =
     halve_ends (iNfft mod 2 = 0)
       (map (\<lambda>z. z / complex_of_real (denomCSD tapers))
          (colwise_sum nFreqs
             (map2 (map2 (\<lambda>a b. a * cnj b))
                (tapSpectra fft iNfft tapers D i) (tapSpectra fft iNfft tapers D j))))"

text \<open>
  The CSD loops. \<^verbatim>\<open>matCsd\<close> is allocated once, before the outer loop; iteration \<open>i\<close>
  overwrites its rows \<open>i\<close>, ..., \<open>iNRows - 1\<close> and appends a copy of the whole matrix
  to \<^verbatim>\<open>vecPairCsd\<close>, so the rows below \<open>i\<close> keep what earlier iterations wrote.
\<close>

definition csd_inner :: "(nat \<Rightarrow> nat \<Rightarrow> complex list) \<Rightarrow> nat \<Rightarrow> nat \<Rightarrow> complex list list \<Rightarrow> complex list list" where
  "csd_inner f nRows i m = fold (\<lambda>j m. m[j := f i j]) [i..<nRows] m"

fun csd_outer :: "(nat \<Rightarrow> nat \<Rightarrow> complex list) \<Rightarrow> nat \<Rightarrow> nat \<Rightarrow> complex list list \<Rightarrow> nat list
    \<Rightarrow> (int \<times> complex matrix) list" where
  "csd_outer f nRows nFreqs m [] = []"
| "csd_outer f nRows nFreqs m (i # is) =
     (let m' = csd_inner f nRows i m
      in (int i, mk_matrix nRows nFreqs m') # csd_outer f nRows nFreqs m' is)"

text \<open>
  The Eigen and Qt preconditions met while the spectra of a trial are computed, in the
  order of the source: the dimensions of the allocated matrices are not negative;
  \<^verbatim>\<open>matData.row(i)\<close> exists for every \<open>i < iNRows\<close>; the mean is taken of a row that is
  not empty; the row and the taper have the same size; \<^verbatim>\<open>tapers.second(j)\<close> exists;
  the FFT output fits the row of \<^verbatim>\<open>matTapSpectrum\<close> it is assigned to; the PSD row has
  a first and a last element.
\<close>

definition compute_ok :: "fft_fwd \<Rightarrow> ConnectivityTrialData \<Rightarrow> int \<Rightarrow> int \<Rightarrow> int \<Rightarrow> tapers \<Rightarrow> bool" where
  "compute_ok fft inputData iNRows iNFreqs iNfft tapers \<longleftrightarrow>
     0 \<le> iNRows \<and> 0 \<le> iNFreqs \<and>
     (0 < iNRows \<longrightarrow>
        nat iNRows \<le> rows (matData inputData) \<and>
        0 < cols (matData inputData) \<and>
        (0 < rows (fst tapers) \<longrightarrow>
           cols (matData inputData) = cols (fst tapers) \<and>
           rows (fst tapers) \<le> length (snd tapers) \<and>
           list_all (\<lambda>i. list_all (\<lambda>j.
               length (fft iNfft (tapered_input tapers (demean (coeffs (matData inputData) ! i)) j))
                 = nat iNFreqs) [0..<rows (fst tapers)]) [0..<nat iNRows]) \<and>
        0 < iNFreqs)"

text \<open>
  The trial after its spectra were computed: \<^verbatim>\<open>matPsd\<close> is replaced, the CSD pairs
  are appended to whatever \<^verbatim>\<open>vecPairCsd\<close> held before. The uninitialised \<^verbatim>\<open>matCsd\<close>
  is read as a zero matrix; its first iteration overwrites every row.
\<close>

definition compute_trial :: "fft_fwd \<Rightarrow> ConnectivityTrialData \<Rightarrow> int \<Rightarrow> int \<Rightarrow> int \<Rightarrow> tapers
    \<Rightarrow> ConnectivityTrialData" where
  "compute_trial fft inputData iNRows iNFreqs iNfft tapers =
     (let nRows = nat iNRows; nFreqs = nat iNFreqs; D = matData inputData
      in inputData\<lparr>
           matPsd := mk_matrix nRows nFreqs (map (psd_row fft iNfft nFreqs tapers D) [0..<nRows]),
           vecPairCsd := vecPairCsd inputData @
             csd_outer (csd_row fft iNfft nFreqs tapers D) nRows nFreqs
               (replicate nRows (replicate nFreqs 0)) [0..<nRows]\<rparr>)"

text \<open>
  The merge under the mutex. \<^verbatim>\<open>matPsdSum += matPsd\<close> needs equal dimensions, and
  \<^verbatim>\<open>vecPairCsdAvg[j].second += vecPairCsd.at(j).second\<close> needs entry \<open>j\<close> of the trial
  and equal dimensions.
\<close>

definition merge_psd :: "real matrix \<Rightarrow> real matrix \<Rightarrow> real matrix option" where
  "merge_psd psdSum P =
     (if rows psdSum = 0 \<or> cols psdSum = 0 then Some P
      else if same_dims psdSum P then Some (mat_add psdSum P)
      else None)"

fun merge_csd_loop :: "(int \<times> complex matrix) list \<Rightarrow> (int \<times> complex matrix) list
    \<Rightarrow> (int \<times> complex matrix) list option" where
  "merge_csd_loop [] cs = Some []"
| "merge_csd_loop (a # as) [] = None"
| "merge_csd_loop (a # as) (c # cs) =
     (if same_dims (snd a) (snd c)
      then (case merge_csd_loop as cs of
              None \<Rightarrow> None
            | Some r \<Rightarrow> Some ((fst a, mat_add (snd a) (snd c)) # r))
      else None)"

definition merge_csd :: "(int \<times> complex matrix) list \<Rightarrow> (int \<times> complex matrix) list
    \<Rightarrow> (int \<times> complex matrix) list option" where
  "merge_csd csdAvg cs =
     (if csdAvg = [] then Some cs else merge_csd_loop csdAvg cs)"

text \<open>
  \<^verbatim>\<open>Coherency::compute\<close>: the trial, the PSD sum and the CSD sums are passed by
  reference; the result is their new contents.
\<close>

definition compute :: "fft_fwd \<Rightarrow> ConnectivityTrialData \<Rightarrow> real matrix \<Rightarrow> (int \<times> complex matrix) list
    \<Rightarrow> int \<Rightarrow> int \<Rightarrow> int \<Rightarrow> tapers
    \<Rightarrow> (ConnectivityTrialData \<times> real matrix \<times> (int \<times> complex matrix) list) option" where
  "compute fft inputData psdSum csdAvg iNRows iNFreqs iNfft tapers =
     (if already_computed inputData iNRows iNFreqs
      then Some (inputData, psdSum, csdAvg)
      else if \<not> compute_ok fft inputData iNRows iNFreqs iNfft tapers then None
      else
        (let t = compute_trial fft inputData iNRows iNFreqs iNfft tapers
         in case merge_psd psdSum (matPsd t) of
              None \<Rightarrow> None
            | Some psd \<Rightarrow>
                (case merge_csd csdAvg (vecPairCsd t) of
                   None \<Rightarrow> None
                 | Some csd \<Rightarrow> Some (t, psd, csd))))"

text \<open>
  \<^verbatim>\<open>QtConcurrent::map(m_dataList, computeLambda)\<close> followed by \<^verbatim>\<open>waitForFinished\<close>:
  every trial is processed once and updated in place. The spectra of different trials
  do not depend on each other and the merges exclude each other through the mutex, so a
  run is a sequence of \<^verbatim>\<open>compute\<close> calls; the model takes them in list order.
\<close>

fun map_compute :: "fft_fwd \<Rightarrow> ConnectivityTrialData list \<Rightarrow> real matrix
    \<Rightarrow> (int \<times> complex matrix) list \<Rightarrow> int \<Rightarrow> int \<Rightarrow> int \<Rightarrow> tapers
    \<Rightarrow> (ConnectivityTrialData list \<times> real matrix \<times> (int \<times> complex matrix) list) option" where
  "map_compute fft [] psdSum csdAvg iNRows iNFreqs iNfft tapers = Some ([], psdSum, csdAvg)"
| "map_compute fft (t # ts) psdSum csdAvg iNRows iNFreqs iNfft tapers =
     (case compute fft t psdSum csdAvg iNRows iNFreqs iNfft tapers of
        None \<Rightarrow> None
      | Some (t', psdSum', csdAvg') \<Rightarrow>
          (case map_compute fft ts psdSum' csdAvg' iNRows iNFreqs iNfft tapers of
             None \<Rightarrow> None
           | Some (ts', psdSum'', csdAvg'') \<Rightarrow> Some (t' # ts', psdSum'', csdAvg'')))"

section \<open>The network\<close>

text \<open>
  Modelled from the spec: the classes \<^verbatim>\<open>Network\<close>, \<^verbatim>\<open>NetworkNode\<close> and
  \<^verbatim>\<open>NetworkEdge\<close>, whose source files are missing. Following sections 3, 4.4 and
  4.5 of the specification, the graph is a passive container built by appending: it has
  one node per channel, found by its index, every node keeps the list of the edges
  attached to it, and the graph keeps the list of all edges. An edge consists of its two
  end points and its weight matrix. Asking for a node that does not exist fails.
\<close>

record NetworkEdge =
  startNodeID :: int
  endNodeID :: int
  matWeight :: "real matrix"

record NetworkNode =
  nodeEdges :: "NetworkEdge list"

record Network =
  netNodes :: "NetworkNode list"
  netEdges :: "NetworkEdge list"

text \<open>
  Modelled from the spec: \<^verbatim>\<open>Network::getNodeAt\<close> is missing from the sources; it is the
  \<open>nodeAt(index)\<close> query of section 4.5, and an index without a node is a failure.
\<close>

definition getNodeAt :: "Network \<Rightarrow> int \<Rightarrow> NetworkNode option" where
  "getNodeAt net i =
     (if 0 \<le> i \<and> nat i < length (netNodes net) then Some (netNodes net ! nat i) else None)"

text \<open>
  Modelled from the spec: \<^verbatim>\<open>NetworkNode::append\<close> is missing from the sources; by
  section 4.4 the edge is attached to the adjacency list of the node.
\<close>

definition node_append :: "NetworkNode \<Rightarrow> NetworkEdge \<Rightarrow> NetworkNode" where
  "node_append node e = node\<lparr>nodeEdges := nodeEdges node @ [e]\<rparr>"

text \<open>
  Modelled from the spec: \<^verbatim>\<open>Network::append\<close> is missing from the sources; by section
  4.4 the edge is appended to the global edge list of the graph.
\<close>

definition network_append :: "Network \<Rightarrow> NetworkEdge \<Rightarrow> Network" where
  "network_append net e = net\<lparr>netEdges := netEdges net @ [e]\<rparr>"

text \<open>
  The three statements inside the mutex of \<^verbatim>\<open>computePSDCSDReal\<close> and
  \<^verbatim>\<open>computePSDCSDImag\<close>:
  \<^verbatim>\<open>getNodeAt(i)->append(pEdge); getNodeAt(j)->append(pEdge); finalNetwork.append(pEdge);\<close>
  The nodes are reached through pointers, so each append changes the node in the graph.
\<close>

definition attach_edge :: "Network \<Rightarrow> NetworkEdge \<Rightarrow> Network option" where
  "attach_edge net e =
     (case getNodeAt net (startNodeID e) of
        None \<Rightarrow> None
      | Some ni \<Rightarrow>
          (let net1 = net\<lparr>netNodes := (netNodes net)[nat (startNodeID e) := node_append ni e]\<rparr>
           in case getNodeAt net1 (endNodeID e) of
                None \<Rightarrow> None
              | Some nj \<Rightarrow>
                  Some (network_append
                          (net1\<lparr>netNodes := (netNodes net1)[nat (endNodeID e) := node_append nj e]\<rparr>)
                          e)))"

section \<open>Normalisation: computePSDCSD, computePSDCSDReal, computePSDCSDImag\<close>

text \<open>
  \<^verbatim>\<open>matPSDtmp\<close>: row \<open>j\<close> is the product of row \<open>pairInput.first\<close> and row \<open>j\<close> of the
  (square-rooted) PSD sum.
\<close>

definition matPSDtmp :: "real matrix \<Rightarrow> nat \<Rightarrow> real matrix" where
  "matPSDtmp psdSum i =
     mk_matrix (rows psdSum) (cols psdSum)
       (map (\<lambda>j. map2 (*) (coeffs psdSum ! i) (coeffs psdSum ! j)) [0..<rows psdSum])"

text \<open>
  \<^verbatim>\<open>pairInput.second.cwiseQuotient(matPSDtmp)\<close>. \<^verbatim>\<open>matPsdSum.row(pairInput.first)\<close>
  must exist and the quotient needs operands of equal dimensions.
\<close>

definition matCohy :: "int \<times> complex matrix \<Rightarrow> real matrix \<Rightarrow> complex matrix option" where
  "matCohy pairInput psdSum =
     (if 0 \<le> fst pairInput \<and> nat (fst pairInput) < rows psdSum \<and>
         same_dims (snd pairInput) (matPSDtmp psdSum (nat (fst pairInput)))
      then Some (cwiseQuotient (snd pairInput) (matPSDtmp psdSum (nat (fst pairInput))))
      else None)"

text \<open>\<^verbatim>\<open>computePSDCSD\<close> stores the quotient in the pair it was given.\<close>

definition computePSDCSD :: "int \<times> complex matrix \<Rightarrow> real matrix \<Rightarrow> (int \<times> complex matrix) option" where
  "computePSDCSD pairInput psdSum =
     (case matCohy pairInput psdSum of
        None \<Rightarrow> None
      | Some q \<Rightarrow> Some (fst pairInput, q))"

text \<open>A row vector transposed: a matrix with one column.\<close>

definition transpose_row :: "'a list \<Rightarrow> 'a matrix" where
  "transpose_row xs = mk_matrix (length xs) 1 (map (\<lambda>x. [x]) xs)"

text \<open>
  The edge weights of the two variants: \<^verbatim>\<open>matCohy.row(j).cwiseAbs().transpose()\<close> and
  \<^verbatim>\<open>matCohy.row(j).imag().transpose()\<close>.
\<close>

definition weight_real :: "complex matrix \<Rightarrow> nat \<Rightarrow> real matrix" where
  "weight_real C j = transpose_row (map cmod (coeffs C ! j))"

definition weight_imag :: "complex matrix \<Rightarrow> nat \<Rightarrow> real matrix" where
  "weight_imag C j = transpose_row (map Im (coeffs C ! j))"

text \<open>The loop \<^verbatim>\<open>for (j = i; j < matCohy.rows(); ++j)\<close> that creates and attaches the edges.\<close>

fun edge_loop :: "(nat \<Rightarrow> real matrix) \<Rightarrow> int \<Rightarrow> Network \<Rightarrow> nat list \<Rightarrow> Network option" where
  "edge_loop w i net [] = Some net"
| "edge_loop w i net (j # js) =
     (case attach_edge net \<lparr>startNodeID = i, endNodeID = int j, matWeight = w j\<rparr> of
        None \<Rightarrow> None
      | Some net' \<Rightarrow> edge_loop w i net' js)"

definition computePSDCSDReal :: "Network \<Rightarrow> int \<times> complex matrix \<Rightarrow> real matrix \<Rightarrow> Network option" where
  "computePSDCSDReal finalNetwork pairInput psdSum =
     (case matCohy pairInput psdSum of
        None \<Rightarrow> None
      | Some C \<Rightarrow>
          edge_loop (weight_real C) (fst pairInput) finalNetwork [nat (fst pairInput)..<rows C])"

definition computePSDCSDImag :: "Network \<Rightarrow> int \<times> complex matrix \<Rightarrow> real matrix \<Rightarrow> Network option" where
  "computePSDCSDImag finalNetwork pairInput psdSum =
     (case matCohy pairInput psdSum of
        None \<Rightarrow> None
      | Some C \<Rightarrow>
          edge_loop (weight_imag C) (fst pairInput) finalNetwork [nat (fst pairInput)..<rows C])"

text \<open>
  The second \<^verbatim>\<open>QtConcurrent::map\<close>, over \<^verbatim>\<open>vecPairCsdSum\<close>. The appends to the network
  exclude each other through the mutex; the model takes the pairs in list order.
\<close>

fun map_network :: "(Network \<Rightarrow> int \<times> complex matrix \<Rightarrow> real matrix \<Rightarrow> Network option)
    \<Rightarrow> Network \<Rightarrow> (int \<times> complex matrix) list \<Rightarrow> real matrix \<Rightarrow> Network option" where
  "map_network step net [] psdSum = Some net"
| "map_network step net (p # ps) psdSum =
     (case step net p psdSum of
        None \<Rightarrow> None
      | Some net' \<Rightarrow> map_network step net' ps psdSum)"

fun map_computePSDCSD :: "(int \<times> complex matrix) list \<Rightarrow> real matrix
    \<Rightarrow> (int \<times> complex matrix) list option" where
  "map_computePSDCSD [] psdSum = Some []"
| "map_computePSDCSD (p # ps) psdSum =
     (case computePSDCSD p psdSum of
        None \<Rightarrow> None
      | Some q \<Rightarrow>
          (case map_computePSDCSD ps psdSum of
             None \<Rightarrow> None
           | Some qs \<Rightarrow> Some (q # qs)))"

section \<open>Coherency::calculateReal, calculateImag, calculate\<close>

text \<open>
  The values every entry point derives from the settings before the trials are
  processed: the FFT length, raised to the sample count of the first trial when the
  configured one is smaller; the channel count of the first trial; the number of
  frequency bins \<^verbatim>\<open>int(floor(iNfft / 2.0)) + 1\<close>. The taper generator
  \<^verbatim>\<open>Spectral::generateTapers\<close> is a parameter \<open>gen\<close> of the model.
\<close>

definition iSignalLength_of :: "ConnectivitySettings \<Rightarrow> int" where
  "iSignalLength_of s = int (cols (matData (hd (m_dataList s))))"

definition iNfft_of :: "ConnectivitySettings \<Rightarrow> int" where
  "iNfft_of s = (if m_iNfft s < iSignalLength_of s then iSignalLength_of s else m_iNfft s)"

definition iNRows_of :: "ConnectivitySettings \<Rightarrow> int" where
  "iNRows_of s = int (rows (matData (hd (m_dataList s))))"

definition iNFreqs_of :: "ConnectivitySettings \<Rightarrow> int" where
  "iNFreqs_of s = \<lfloor>real_of_int (iNfft_of s) / 2\<rfloor> + 1"

type_synonym generateTapers = "int \<Rightarrow> string \<Rightarrow> tapers"

text \<open>The first phase, common to the three entry points, up to the square root.\<close>

definition compute_phase :: "fft_fwd \<Rightarrow> generateTapers \<Rightarrow> ConnectivitySettings
    \<Rightarrow> (ConnectivityTrialData list \<times> real matrix \<times> (int \<times> complex matrix) list) option" where
  "compute_phase fft gen s =
     map_compute fft (m_dataList s) (matPsdSum (data s)) (vecPairCsdSum (data s))
       (iNRows_of s) (iNFreqs_of s) (iNfft_of s) (gen (iSignalLength_of s) (m_sWindowType s))"

definition calculate_network :: "(Network \<Rightarrow> int \<times> complex matrix \<Rightarrow> real matrix \<Rightarrow> Network option)
    \<Rightarrow> fft_fwd \<Rightarrow> generateTapers \<Rightarrow> Network \<Rightarrow> ConnectivitySettings
    \<Rightarrow> (Network \<times> ConnectivitySettings) option" where
  "calculate_network step fft gen finalNetwork s =
     (if m_dataList s = [] then Some (finalNetwork, s)
      else
        (case compute_phase fft gen s of
           None \<Rightarrow> None
         | Some (ts, psdSum, csdSum) \<Rightarrow>
             (let psdSqrt = cwiseSqrt psdSum
              in case map_network step finalNetwork csdSum psdSqrt of
                   None \<Rightarrow> None
                 | Some net \<Rightarrow>
                     Some (net, s\<lparr>m_dataList := ts,
                                  data := \<lparr>matPsdSum = psdSqrt, vecPairCsdSum = csdSum\<rparr>\<rparr>))))"

definition calculateReal :: "fft_fwd \<Rightarrow> generateTapers \<Rightarrow> Network \<Rightarrow> ConnectivitySettings
    \<Rightarrow> (Network \<times> ConnectivitySettings) option" where
  "calculateReal = calculate_network computePSDCSDReal"

definition calculateImag :: "fft_fwd \<Rightarrow> generateTapers \<Rightarrow> Network \<Rightarrow> ConnectivitySettings
    \<Rightarrow> (Network \<times> ConnectivitySettings) option" where
  "calculateImag = calculate_network computePSDCSDImag"

text \<open>
  \<^verbatim>\<open>calculate\<close> normalises the CSD sums in place and copies them to \<^verbatim>\<open>vecCoherency\<close>.
\<close>

definition calculate :: "fft_fwd \<Rightarrow> generateTapers \<Rightarrow> (int \<times> complex matrix) list \<Rightarrow> ConnectivitySettings
    \<Rightarrow> ((int \<times> complex matrix) list \<times> ConnectivitySettings) option" where
  "calculate fft gen vecCoherency s =
     (if m_dataList s = [] then Some (vecCoherency, s)
      else
        (case compute_phase fft gen s of
           None \<Rightarrow> None
         | Some (ts, psdSum, csdSum) \<Rightarrow>
             (let psdSqrt = cwiseSqrt psdSum
              in case map_computePSDCSD csdSum psdSqrt of
                   None \<Rightarrow> None
                 | Some cohy \<Rightarrow>
                     Some (cohy, s\<lparr>m_dataList := ts,
                                   data := \<lparr>matPsdSum = psdSqrt, vecPairCsdSum = cohy\<rparr>\<rparr>))))"






section \<open>Shapes and valid runs\<close>

text \<open>The predicates in which the properties below are stated.\<close>

definition mat_shape :: "nat \<Rightarrow> nat \<Rightarrow> 'a matrix \<Rightarrow> bool" where
  "mat_shape r c M \<longleftrightarrow> rows M = r \<and> cols M = c \<and> wf_matrix M"

text \<open>
  A list of CSD pairs for \<open>C\<close> channels and \<open>F\<close> bins: entry \<open>i\<close> carries the index
  \<open>i\<close> and a \<open>C\<close> x \<open>F\<close> matrix.
\<close>

definition csd_shape :: "nat \<Rightarrow> nat \<Rightarrow> (int \<times> complex matrix) list \<Rightarrow> bool" where
  "csd_shape C F cs \<longleftrightarrow>
     map fst cs = map int [0..<C] \<and> list_all (\<lambda>p. mat_shape C F (snd p)) cs"

text \<open>A trial as it is supplied, without a stored result, and a trial with one.\<close>

definition fresh_trial :: "ConnectivityTrialData \<Rightarrow> bool" where
  "fresh_trial t \<longleftrightarrow> matPsd t = empty_matrix \<and> vecPairCsd t = []"

definition stored_result :: "nat \<Rightarrow> nat \<Rightarrow> ConnectivityTrialData \<Rightarrow> bool" where
  "stored_result C F t \<longleftrightarrow> mat_shape C F (matPsd t) \<and> csd_shape C F (vecPairCsd t)"

definition valid_trial :: "nat \<Rightarrow> nat \<Rightarrow> nat \<Rightarrow> ConnectivityTrialData \<Rightarrow> bool" where
  "valid_trial C L F t \<longleftrightarrow>
     mat_shape C L (matData t) \<and> (fresh_trial t \<or> stored_result C F t)"

text \<open>The running sums: still empty, or of the shape of the run.\<close>

definition sums_empty :: "real matrix \<Rightarrow> (int \<times> complex matrix) list \<Rightarrow> bool" where
  "sums_empty psdSum csdSum \<longleftrightarrow> (rows psdSum = 0 \<or> cols psdSum = 0) \<and> csdSum = []"

definition sums_shape :: "nat \<Rightarrow> nat \<Rightarrow> real matrix \<Rightarrow> (int \<times> complex matrix) list \<Rightarrow> bool" where
  "sums_shape C F psdSum csdSum \<longleftrightarrow> mat_shape C F psdSum \<and> csd_shape C F csdSum"

text \<open>
  What the model asks of the two library routines: the taper matrix has one column per
  sample and one weight per taper, and the FFT of length \<open>n\<close> returns the half
  spectrum, \<open>n div 2 + 1\<close> bins.
\<close>

definition valid_tapers :: "nat \<Rightarrow> tapers \<Rightarrow> bool" where
  "valid_tapers L tp \<longleftrightarrow>
     wf_matrix (fst tp) \<and> cols (fst tp) = L \<and> length (snd tp) = rows (fst tp)"

definition half_spectrum :: "fft_fwd \<Rightarrow> int \<Rightarrow> bool" where
  "half_spectrum fft n \<longleftrightarrow> (\<forall>x. length (fft n x) = nat (n div 2 + 1))"

text \<open>
  A valid run: there is a trial; all trials have the channel and sample count of the
  first one, at least one sample, and either no stored result or one of the shape of
  this run; the sums are of that shape too, or they are empty and some trial is still
  to be computed.
\<close>

definition valid_run :: "fft_fwd \<Rightarrow> generateTapers \<Rightarrow> ConnectivitySettings \<Rightarrow> bool" where
  "valid_run fft gen s \<longleftrightarrow>
     m_dataList s \<noteq> [] \<and>
     0 < iSignalLength_of s \<and>
     list_all (valid_trial (nat (iNRows_of s)) (nat (iSignalLength_of s)) (nat (iNFreqs_of s)))
       (m_dataList s) \<and>
     valid_tapers (nat (iSignalLength_of s)) (gen (iSignalLength_of s) (m_sWindowType s)) \<and>
     half_spectrum fft (iNfft_of s) \<and>
     (sums_shape (nat (iNRows_of s)) (nat (iNFreqs_of s))
        (matPsdSum (data s)) (vecPairCsdSum (data s)) \<or>
      sums_empty (matPsdSum (data s)) (vecPairCsdSum (data s)) \<and>
      list_ex fresh_trial (m_dataList s))"

text \<open>A network of \<open>n\<close> nodes that has at least the nodes of the run and no edge yet.\<close>

definition new_network :: "nat \<Rightarrow> Network" where
  "new_network n = \<lparr>netNodes = replicate n \<lparr>nodeEdges = []\<rparr>, netEdges = []\<rparr>"

definition endpoints :: "NetworkEdge \<Rightarrow> int \<times> int" where
  "endpoints e = (startNodeID e, endNodeID e)"

text \<open>The pairs \<open>(i, j)\<close> with \<open>i \<le> j < C\<close>, row by row.\<close>

definition pair_row :: "nat \<Rightarrow> nat \<Rightarrow> (int \<times> int) list" where
  "pair_row C i = map (\<lambda>j. (int i, int j)) [i..<C]"

definition upper_pairs :: "nat \<Rightarrow> (int \<times> int) list" where
  "upper_pairs C = concat (map (pair_row C) [0..<C])"

text \<open>
  The edge that iteration \<open>j\<close> of the edge loop creates, the edges of one CSD pair, and
  the step shared by \<^verbatim>\<open>computePSDCSDReal\<close> and \<^verbatim>\<open>computePSDCSDImag\<close>, which differ
  in the weight only.
\<close>

definition mk_edge :: "(nat \<Rightarrow> real matrix) \<Rightarrow> int \<Rightarrow> nat \<Rightarrow> NetworkEdge" where
  "mk_edge w i j = \<lparr>startNodeID = i, endNodeID = int j, matWeight = w j\<rparr>"

definition pair_edges :: "(complex matrix \<Rightarrow> nat \<Rightarrow> real matrix) \<Rightarrow> real matrix
    \<Rightarrow> int \<times> complex matrix \<Rightarrow> NetworkEdge list" where
  "pair_edges wgt psd p =
     map (mk_edge (wgt (the (matCohy p psd))) (fst p)) [nat (fst p)..<rows (snd p)]"

definition edge_step :: "(complex matrix \<Rightarrow> nat \<Rightarrow> real matrix)
    \<Rightarrow> Network \<Rightarrow> int \<times> complex matrix \<Rightarrow> real matrix \<Rightarrow> Network option" where
  "edge_step wgt net p psd =
     (case matCohy p psd of
        None \<Rightarrow> None
      | Some C \<Rightarrow> edge_loop (wgt C) (fst p) net [nat (fst p)..<rows C])"

text \<open>
  A matrix, a settings object and a list of edges whose frequency axis has \<open>F\<close> bins.
\<close>

definition bins_matrix :: "nat \<Rightarrow> 'a matrix \<Rightarrow> bool" where
  "bins_matrix F M \<longleftrightarrow> cols M = F \<and> list_all (\<lambda>r. length r = F) (coeffs M)"

definition bins_trial :: "nat \<Rightarrow> ConnectivityTrialData \<Rightarrow> bool" where
  "bins_trial F t \<longleftrightarrow>
     bins_matrix F (matPsd t) \<and> list_all (\<lambda>p. bins_matrix F (snd p)) (vecPairCsd t)"

definition bins_settings :: "nat \<Rightarrow> ConnectivitySettings \<Rightarrow> bool" where
  "bins_settings F s \<longleftrightarrow>
     list_all (bins_trial F) (m_dataList s) \<and>
     bins_matrix F (matPsdSum (data s)) \<and>
     list_all (\<lambda>p. bins_matrix F (snd p)) (vecPairCsdSum (data s))"

definition bins_edges :: "nat \<Rightarrow> NetworkEdge list \<Rightarrow> bool" where
  "bins_edges F es \<longleftrightarrow>
     list_all (\<lambda>e. rows (matWeight e) = F \<and> length (coeffs (matWeight e)) = F) es"

text \<open>Settings in which every trial takes the early return of \<^verbatim>\<open>compute\<close>.\<close>

definition all_memoized :: "ConnectivitySettings \<Rightarrow> bool" where
  "all_memoized s \<longleftrightarrow>
     m_dataList s \<noteq> [] \<and>
     list_all (\<lambda>t. already_computed t (iNRows_of s) (iNFreqs_of s)) (m_dataList s)"

text \<open>A matrix with every coefficient multiplied by a real factor.\<close>

definition scale_real :: "real \<Rightarrow> real matrix \<Rightarrow> real matrix" where
  "scale_real a M = M\<lparr>coeffs := map (map (\<lambda>x. a * x)) (coeffs M)\<rparr>"

definition scale_complex :: "real \<Rightarrow> complex matrix \<Rightarrow> complex matrix" where
  "scale_complex a M = M\<lparr>coeffs := map (map (\<lambda>z. complex_of_real a * z)) (coeffs M)\<rparr>"


section \<open>Example data\<close>

text \<open>
  The discrete Fourier transform of the input padded with zeros to length \<open>n\<close>, bins
  \<open>0\<close> to \<open>n div 2\<close>: what the FFT parameter stands for.
\<close>

definition dft_half :: fft_fwd where
  "dft_half n x =
     map (\<lambda>k. \<Sum>j<nat n. complex_of_real ((x @ replicate (nat n - length x) 0) ! j)
                  * cis (- 2 * pi * real k * real j / real_of_int n))
         [0..<nat (n div 2 + 1)]"

text \<open>A taper generator that returns one taper that rises linearly, with weight 1.\<close>

definition ramp_tapers :: generateTapers where
  "ramp_tapers L w = (mk_matrix 1 (nat L) [map (\<lambda>k. real (Suc k)) [0..<nat L]], [1])"

text \<open>A trial of two channels and two samples, and settings that hold it once.\<close>

definition trial2x2 :: ConnectivityTrialData where
  "trial2x2 = \<lparr>matData = mk_matrix 2 2 [[1, 3], [2, 6]], matPsd = empty_matrix, vecPairCsd = []\<rparr>"

definition settings2x2 :: "int \<Rightarrow> ConnectivitySettings" where
  "settings2x2 n =
     \<lparr>m_dataList = [trial2x2], m_iNfft = n, m_sWindowType = ''hanning'',
      data = \<lparr>matPsdSum = empty_matrix, vecPairCsdSum = []\<rparr>\<rparr>"

text \<open>The same trial with a stored result of two channels and two bins.\<close>

definition trial2x2_stored :: ConnectivityTrialData where
  "trial2x2_stored =
     trial2x2\<lparr>matPsd := mk_matrix 2 2 [[4, 4], [4, 4]],
              vecPairCsd := [(0, mk_matrix 2 2 [[8, 8], [8, 8]]), (1, mk_matrix 2 2 [[8, 8], [8, 8]])]\<rparr>"

text \<open>A trial of three channels and two samples, and settings that hold it twice.\<close>

definition trial3x2 :: ConnectivityTrialData where
  "trial3x2 =
     \<lparr>matData = mk_matrix 3 2 [[1, 3], [2, 6], [5, 4]], matPsd = empty_matrix, vecPairCsd = []\<rparr>"

definition settings3x2 :: "int \<Rightarrow> ConnectivitySettings" where
  "settings3x2 n =
     \<lparr>m_dataList = [trial3x2, trial3x2], m_iNfft = n, m_sWindowType = ''hanning'',
      data = \<lparr>matPsdSum = empty_matrix, vecPairCsdSum = []\<rparr>\<rparr>"

text \<open>
  Settings as an earlier call leaves them: the first trial has its stored result, the
  sums hold its contribution (the PSD sum after the square root), and a second trial
  has been added since.
\<close>

definition settings_kept :: ConnectivitySettings where
  "settings_kept =
     \<lparr>m_dataList = [trial2x2_stored, trial2x2], m_iNfft = 2, m_sWindowType = ''hanning'',
      data = \<lparr>matPsdSum = mk_matrix 2 2 [[2, 2], [2, 2]],
              vecPairCsdSum = [(0, mk_matrix 2 2 [[8, 8], [8, 8]]),
                               (1, mk_matrix 2 2 [[8, 8], [8, 8]])]\<rparr>\<rparr>"

text \<open>Settings without trials.\<close>

definition settings_no_trials :: ConnectivitySettings where
  "settings_no_trials =
     \<lparr>m_dataList = [], m_iNfft = 2, m_sWindowType = ''hanning'',
      data = \<lparr>matPsdSum = empty_matrix, vecPairCsdSum = []\<rparr>\<rparr>"

text \<open>
  Settings after a first call of \<^verbatim>\<open>calculateReal\<close> on the stored trial alone: its PSD,
  square-rooted, and its CSD matrices are the sums.
\<close>

definition settings_after :: ConnectivitySettings where
  "settings_after =
     \<lparr>m_dataList = [trial2x2_stored], m_iNfft = 2, m_sWindowType = ''hanning'',
      data = \<lparr>matPsdSum = mk_matrix 2 2 [[2, 2], [2, 2]],
              vecPairCsdSum = [(0, mk_matrix 2 2 [[8, 8], [8, 8]]),
                               (1, mk_matrix 2 2 [[8, 8], [8, 8]])]\<rparr>\<rparr>"







section \<open>Auxiliary lemmas\<close>

subsection \<open>Rows: halving, column sums, the CSD loops\<close>

lemma length_halve_ends [simp]: "length (halve_ends b xs) = length xs"
  by (simp add: halve_ends_def Let_def)

lemma nth_halve_ends:
  assumes "k < length xs"
  shows "halve_ends b xs ! k =
           (xs ! k :: 'a::field_char_0) / (if k = 0 then 2 else 1)
             / (if b \<and> k = length xs - 1 then 2 else 1)"
  using assms by (auto simp: halve_ends_def Let_def nth_list_update)

lemma length_colwise_sum [simp]: "length (colwise_sum n xss) = n"
  by (simp add: colwise_sum_def)

lemma nth_colwise_sum:
  "k < n \<Longrightarrow> colwise_sum n xss ! k = (\<Sum>j<length xss. xss ! j ! k)"
  by (simp add: colwise_sum_def sum_list_sum_nth atLeast0LessThan)

lemma length_psd_row [simp]: "length (psd_row fft n nF tapers D i) = nF"
  by (simp add: psd_row_def)

lemma length_csd_row [simp]: "length (csd_row fft n nF tapers D i j) = nF"
  by (simp add: csd_row_def)

lemma length_matTapSpectrum [simp]:
  "length (matTapSpectrum fft n tapers r) = rows (fst tapers)"
  by (simp add: matTapSpectrum_def)

lemma length_tapSpectra [simp]: "length (tapSpectra fft n tapers D i) = rows (fst tapers)"
  by (simp add: tapSpectra_def)

lemma sum_abs2_nonneg: "0 \<le> sum_abs2 ws"
  by (auto simp: sum_abs2_def intro!: sum_list_nonneg)

lemma denomCSD_eq_denomPSD: "denomCSD tapers = denomPSD tapers"
  by (simp add: denomCSD_def denomPSD_def sum_abs2_nonneg)

lemma length_fold_update [simp]: "length (fold (\<lambda>j m. m[j := g j]) js m) = length m"
  by (induction js arbitrary: m) auto

lemma nth_fold_update:
  "k < length m \<Longrightarrow>
     fold (\<lambda>j m. m[j := g j]) js m ! k = (if k \<in> set js then g k else m ! k)"
  by (induction js arbitrary: m) (auto simp: nth_list_update)

lemma length_csd_inner [simp]: "length (csd_inner f n i m) = length m"
  by (simp add: csd_inner_def)

lemma nth_csd_inner:
  "k < length m \<Longrightarrow> csd_inner f n i m ! k = (if i \<le> k \<and> k < n then f i k else m ! k)"
  by (simp add: csd_inner_def nth_fold_update)

lemma length_csd_outer [simp]: "length (csd_outer f n nF m is) = length is"
  by (induction "is" arbitrary: m) (auto simp: Let_def)

lemma map_fst_csd_outer: "map fst (csd_outer f n nF m is) = map int is"
  by (induction "is" arbitrary: m) (auto simp: Let_def)

lemma csd_outer_nth:
  assumes "k < length is" "length m = n"
  shows "\<exists>m'. length m' = n \<and>
           csd_outer f n nF m is ! k = (int (is ! k), mk_matrix n nF (csd_inner f n (is ! k) m'))"
  using assms
proof (induction "is" arbitrary: m k)
  case Nil
  then show ?case by simp
next
  case (Cons i "is")
  show ?case
  proof (cases k)
    case 0
    with Cons.prems show ?thesis by (auto simp: Let_def)
  next
    case (Suc k')
    with Cons.prems have "k' < length is" by simp
    from Cons.IH[OF this, of "csd_inner f n i m"] Cons.prems Suc
    show ?thesis by (auto simp: Let_def)
  qed
qed

subsection \<open>The values derived from the settings\<close>

lemma floor_half: "\<lfloor>real_of_int n / 2\<rfloor> = n div 2"
  by (simp add: floor_divide_of_int_eq [of n 2, simplified])

lemma iNFreqs_of_div: "iNFreqs_of s = iNfft_of s div 2 + 1"
  by (simp add: iNFreqs_of_def floor_half)

lemma iNfft_of_ge: "iSignalLength_of s \<le> iNfft_of s"
  by (simp add: iNfft_of_def)

lemma iSignalLength_of_nonneg: "0 \<le> iSignalLength_of s"
  by (simp add: iSignalLength_of_def)

lemma iNFreqs_of_pos: "0 < iNFreqs_of s"
proof -
  have "0 \<le> iNfft_of s" using iNfft_of_ge [of s] iSignalLength_of_nonneg [of s] by linarith
  then show ?thesis by (simp add: iNFreqs_of_div)
qed

subsection \<open>Shapes of the spectra of a trial\<close>

lemma mat_shape_mk:
  "length xss = r \<Longrightarrow> (\<And>k. k < r \<Longrightarrow> length (xss ! k) = c) \<Longrightarrow> mat_shape r c (mk_matrix r c xss)"
  by (simp add: mat_shape_def mk_matrix_def wf_matrix_def list_all_length)

lemma mat_shape_nth:
  "mat_shape r c M \<Longrightarrow> k < r \<Longrightarrow> length (coeffs M ! k) = c"
  by (simp add: mat_shape_def wf_matrix_def list_all_length)

lemma mat_shape_length: "mat_shape r c M \<Longrightarrow> length (coeffs M) = r"
  by (simp add: mat_shape_def wf_matrix_def)

lemma mat_shape_psd:
  "mat_shape nR nF (mk_matrix nR nF (map (psd_row fft n nF tp D) [0..<nR]))"
  by (rule mat_shape_mk) simp_all

lemma csd_outer_shape:
  assumes "length m = n" "\<And>k. k < n \<Longrightarrow> length (m ! k) = nF" "\<And>i j. length (f i j) = nF"
  shows "list_all (\<lambda>p. mat_shape n nF (snd p)) (csd_outer f n nF m is)"
  using assms(1,2)
proof (induction "is" arbitrary: m)
  case Nil
  then show ?case by simp
next
  case (Cons i "is")
  let ?m' = "csd_inner f n i m"
  have len: "length ?m' = n" using Cons.prems by simp
  have row: "\<And>k. k < n \<Longrightarrow> length (?m' ! k) = nF"
    using Cons.prems assms(3) by (simp add: nth_csd_inner)
  have "mat_shape n nF (mk_matrix n nF ?m')"
    using len row by (rule mat_shape_mk)
  with Cons.IH [OF len row] show ?case by (simp add: Let_def)
qed

lemma csd_shape_new:
  "csd_shape nR nF (csd_outer (csd_row fft n nF tp D) nR nF (replicate nR (replicate nF 0)) [0..<nR])"
  unfolding csd_shape_def
  by (intro conjI map_fst_csd_outer csd_outer_shape) simp_all

lemma matPsd_compute_trial:
  "matPsd (compute_trial fft t R F n tp)
     = mk_matrix (nat R) (nat F) (map (psd_row fft n (nat F) tp (matData t)) [0..<nat R])"
  by (simp add: compute_trial_def Let_def)

lemma vecPairCsd_compute_trial:
  "vecPairCsd (compute_trial fft t R F n tp)
     = vecPairCsd t @ csd_outer (csd_row fft n (nat F) tp (matData t)) (nat R) (nat F)
         (replicate (nat R) (replicate (nat F) 0)) [0..<nat R]"
  by (simp add: compute_trial_def Let_def)

lemma matData_compute_trial [simp]: "matData (compute_trial fft t R F n tp) = matData t"
  by (simp add: compute_trial_def Let_def)

lemma stored_result_compute_trial:
  "vecPairCsd t = [] \<Longrightarrow> stored_result (nat R) (nat F) (compute_trial fft t R F n tp)"
  by (simp add: stored_result_def matPsd_compute_trial vecPairCsd_compute_trial
      mat_shape_psd csd_shape_new)

lemma stored_result_already_computed:
  "stored_result C F t \<Longrightarrow> already_computed t (int C) (int F)"
  by (auto simp: stored_result_def already_computed_def mat_shape_def csd_shape_def
      dest: arg_cong [where f = length])

lemma fresh_not_already_computed:
  "fresh_trial t \<Longrightarrow> 0 < F \<Longrightarrow> \<not> already_computed t R F"
  by (simp add: fresh_trial_def already_computed_def empty_matrix_def)

lemma compute_ok_valid:
  assumes "mat_shape C L (matData t)" "0 < L" "0 < F" "valid_tapers L tp"
    and "half_spectrum fft n" "F = nat (n div 2 + 1)"
  shows "compute_ok fft t (int C) (int F) n tp"
  using assms
  by (auto simp: compute_ok_def mat_shape_def valid_tapers_def half_spectrum_def list_all_length)

subsection \<open>Shapes kept by the merge and by a run\<close>

lemma mat_shape_mat_add:
  "mat_shape r c A \<Longrightarrow> mat_shape r c B \<Longrightarrow> mat_shape r c (mat_add A B)"
  by (auto simp: mat_shape_def wf_matrix_def mat_add_def list_all_length)

lemma merge_psd_shape:
  assumes "mat_shape C F P" "mat_shape C F psd \<or> rows psd = 0 \<or> cols psd = 0"
  shows "\<exists>psd'. merge_psd psd P = Some psd' \<and> mat_shape C F psd'"
  using assms
  by (auto simp: merge_psd_def same_dims_def mat_shape_mat_add) (auto simp: mat_shape_def)

lemma merge_csd_loop_shape:
  assumes "list_all (\<lambda>p. mat_shape C F (snd p)) as" "list_all (\<lambda>p. mat_shape C F (snd p)) cs"
    and "length as = length cs"
  shows "\<exists>r. merge_csd_loop as cs = Some r \<and> map fst r = map fst as \<and>
              list_all (\<lambda>p. mat_shape C F (snd p)) r"
  using assms
proof (induction as cs rule: merge_csd_loop.induct)
  case (3 a as c cs)
  then obtain r where r: "merge_csd_loop as cs = Some r" "map fst r = map fst as"
      "list_all (\<lambda>p. mat_shape C F (snd p)) r"
    by (auto simp: same_dims_def mat_shape_def)
  moreover have "same_dims (snd a) (snd c)"
    using "3.prems" by (simp add: same_dims_def mat_shape_def)
  moreover have "mat_shape C F (mat_add (snd a) (snd c))"
    using "3.prems" by (simp add: mat_shape_mat_add)
  ultimately show ?case by simp
qed simp_all

lemma merge_csd_shape:
  assumes "csd_shape C F cs" "csd_shape C F csd \<or> csd = []"
  shows "\<exists>csd'. merge_csd csd cs = Some csd' \<and> csd_shape C F csd'"
proof (cases "csd = []")
  case True
  with assms show ?thesis by (simp add: merge_csd_def)
next
  case False
  with assms have sh: "csd_shape C F csd" by simp
  have len: "length csd = length cs"
    using sh assms(1) by (auto simp: csd_shape_def dest!: arg_cong [where f = length])
  from merge_csd_loop_shape [of C F csd cs] sh assms(1) len
  obtain r where "merge_csd_loop csd cs = Some r" "map fst r = map fst csd"
      "list_all (\<lambda>p. mat_shape C F (snd p)) r"
    by (auto simp: csd_shape_def)
  with sh False show ?thesis by (simp add: merge_csd_def csd_shape_def)
qed

lemma compute_valid:
  assumes t: "valid_trial C L F t" and pos: "0 < L" "0 < F"
    and tp: "valid_tapers L tp" and fft: "half_spectrum fft n" and F: "F = nat (n div 2 + 1)"
    and sums: "sums_shape C F psd csd \<or> sums_empty psd csd"
  shows "\<exists>t' psd' csd'. compute fft t psd csd (int C) (int F) n tp = Some (t', psd', csd') \<and>
           matData t' = matData t \<and> stored_result C F t' \<and>
           (if fresh_trial t then sums_shape C F psd' csd' else psd' = psd \<and> csd' = csd)"
proof (cases "fresh_trial t")
  case True
  let ?t' = "compute_trial fft t (int C) (int F) n tp"
  have nc: "\<not> already_computed t (int C) (int F)"
    using True pos by (simp add: fresh_not_already_computed)
  have ok: "compute_ok fft t (int C) (int F) n tp"
    using t pos tp fft F by (intro compute_ok_valid [where L = L]) (simp_all add: valid_trial_def)
  have st: "stored_result C F ?t'"
    using stored_result_compute_trial [of t "int C" "int F"] True by (simp add: fresh_trial_def)
  from merge_psd_shape [of C F "matPsd ?t'" psd] st sums
  obtain psd' where p: "merge_psd psd (matPsd ?t') = Some psd'" "mat_shape C F psd'"
    by (auto simp: stored_result_def sums_shape_def sums_empty_def)
  from merge_csd_shape [of C F "vecPairCsd ?t'" csd] st sums
  obtain csd' where c: "merge_csd csd (vecPairCsd ?t') = Some csd'" "csd_shape C F csd'"
    by (auto simp: stored_result_def sums_shape_def sums_empty_def)
  from nc ok p c st True show ?thesis
    by (simp add: compute_def Let_def sums_shape_def)
next
  case False
  with t have st: "stored_result C F t" by (simp add: valid_trial_def)
  then have "already_computed t (int C) (int F)" by (rule stored_result_already_computed)
  with st False show ?thesis by (simp add: compute_def)
qed

lemma map_compute_valid:
  assumes "list_all (valid_trial C L F) ts" and pos: "0 < L" "0 < F"
    and tp: "valid_tapers L tp" and fft: "half_spectrum fft n" and F: "F = nat (n div 2 + 1)"
    and "sums_shape C F psd csd \<or> sums_empty psd csd"
  shows "\<exists>ts' psd' csd'. map_compute fft ts psd csd (int C) (int F) n tp = Some (ts', psd', csd') \<and>
           map matData ts' = map matData ts \<and> list_all (stored_result C F) ts' \<and>
           (sums_shape C F psd' csd' \<or> sums_empty psd' csd') \<and>
           (sums_shape C F psd csd \<or> list_ex fresh_trial ts \<longrightarrow> sums_shape C F psd' csd')"
  using assms(1,7)
proof (induction ts arbitrary: psd csd)
  case Nil
  then show ?case by simp
next
  case (Cons t ts)
  from Cons.prems have t: "valid_trial C L F t" and ts: "list_all (valid_trial C L F) ts"
    by simp_all
  from compute_valid [OF t pos tp fft F Cons.prems(2)]
  obtain t' psd1 csd1 where c: "compute fft t psd csd (int C) (int F) n tp = Some (t', psd1, csd1)"
      "matData t' = matData t" "stored_result C F t'"
      "if fresh_trial t then sums_shape C F psd1 csd1 else psd1 = psd \<and> csd1 = csd"
    by blast
  have s1: "sums_shape C F psd1 csd1 \<or> sums_empty psd1 csd1"
    using c(4) Cons.prems(2) by (auto split: if_splits)
  from Cons.IH [OF ts s1]
  obtain ts' psd' csd' where r:
      "map_compute fft ts psd1 csd1 (int C) (int F) n tp = Some (ts', psd', csd')"
      "map matData ts' = map matData ts" "list_all (stored_result C F) ts'"
      "sums_shape C F psd' csd' \<or> sums_empty psd' csd'"
      "sums_shape C F psd1 csd1 \<or> list_ex fresh_trial ts \<longrightarrow> sums_shape C F psd' csd'"
    by blast
  have "sums_shape C F psd csd \<or> list_ex fresh_trial (t # ts) \<longrightarrow> sums_shape C F psd' csd'"
    using c(4) r(5) by (auto split: if_splits)
  with c r show ?case by simp
qed

lemma compute_phase_valid:
  assumes "valid_run fft gen s"
  shows "\<exists>ts psd csd. compute_phase fft gen s = Some (ts, psd, csd) \<and>
           map matData ts = map matData (m_dataList s) \<and>
           list_all (stored_result (nat (iNRows_of s)) (nat (iNFreqs_of s))) ts \<and>
           sums_shape (nat (iNRows_of s)) (nat (iNFreqs_of s)) psd csd"
proof -
  let ?C = "nat (iNRows_of s)" and ?L = "nat (iSignalLength_of s)" and ?F = "nat (iNFreqs_of s)"
  have F: "?F = nat (iNfft_of s div 2 + 1)" by (simp add: iNFreqs_of_div)
  have pos: "0 < ?L" "0 < ?F"
    using assms iNFreqs_of_pos [of s] by (simp_all add: valid_run_def)
  have ints: "int ?C = iNRows_of s" "int ?F = iNFreqs_of s"
    using iNFreqs_of_pos [of s] by (simp_all add: iNRows_of_def)
  from assms have
    ts: "list_all (valid_trial ?C ?L ?F) (m_dataList s)" and
    tp: "valid_tapers ?L (gen (iSignalLength_of s) (m_sWindowType s))" and
    fft: "half_spectrum fft (iNfft_of s)" and
    sums: "sums_shape ?C ?F (matPsdSum (data s)) (vecPairCsdSum (data s)) \<or>
           sums_empty (matPsdSum (data s)) (vecPairCsdSum (data s))" and
    go: "sums_shape ?C ?F (matPsdSum (data s)) (vecPairCsdSum (data s)) \<or>
         list_ex fresh_trial (m_dataList s)"
    by (auto simp: valid_run_def)
  from map_compute_valid [OF ts pos tp fft F sums] go ints
  show ?thesis by (auto simp: compute_phase_def)
qed

subsection \<open>Edges attached by the normalisation\<close>

lemma attach_edge_Some:
  assumes "0 \<le> startNodeID e" "nat (startNodeID e) < length (netNodes net)"
    and "0 \<le> endNodeID e" "nat (endNodeID e) < length (netNodes net)"
  shows "\<exists>net'. attach_edge net e = Some net' \<and>
           netEdges net' = netEdges net @ [e] \<and>
           length (netNodes net') = length (netNodes net) \<and>
           (\<forall>k < length (netNodes net). nodeEdges (netNodes net' ! k) =
              nodeEdges (netNodes net ! k)
                @ (if k = nat (startNodeID e) then [e] else [])
                @ (if k = nat (endNodeID e) then [e] else []))"
  using assms
  by (auto simp: attach_edge_def getNodeAt_def Let_def network_append_def node_append_def
      nth_list_update)

lemma edge_loop_Some:
  assumes "0 \<le> i" "nat i < length (netNodes net)" "\<forall>j \<in> set js. j < length (netNodes net)"
  shows "\<exists>net'. edge_loop w i net js = Some net' \<and>
           netEdges net' = netEdges net @ map (mk_edge w i) js \<and>
           length (netNodes net') = length (netNodes net) \<and>
           (\<forall>k < length (netNodes net). nodeEdges (netNodes net' ! k) =
              nodeEdges (netNodes net ! k)
                @ concat (map (\<lambda>j. (if k = nat i then [mk_edge w i j] else [])
                                 @ (if k = j then [mk_edge w i j] else [])) js))"
  using assms
proof (induction js arbitrary: net)
  case Nil
  then show ?case by simp
next
  case (Cons j js)
  let ?e = "mk_edge w i j"
  from attach_edge_Some [of ?e net] Cons.prems
  obtain net1 where a: "attach_edge net ?e = Some net1"
      "netEdges net1 = netEdges net @ [?e]"
      "length (netNodes net1) = length (netNodes net)"
      "\<forall>k < length (netNodes net). nodeEdges (netNodes net1 ! k) =
              nodeEdges (netNodes net ! k)
                @ (if k = nat i then [?e] else []) @ (if k = j then [?e] else [])"
    by (auto simp: mk_edge_def)
  from Cons.IH [of net1] Cons.prems a(3)
  obtain net' where r: "edge_loop w i net1 js = Some net'"
      "netEdges net' = netEdges net1 @ map (mk_edge w i) js"
      "length (netNodes net') = length (netNodes net1)"
      "\<forall>k < length (netNodes net1). nodeEdges (netNodes net' ! k) =
              nodeEdges (netNodes net1 ! k)
                @ concat (map (\<lambda>j. (if k = nat i then [mk_edge w i j] else [])
                                 @ (if k = j then [mk_edge w i j] else [])) js)"
    by auto
  from a r show ?case by (simp add: mk_edge_def)
qed

lemma mat_shape_matPSDtmp:
  "mat_shape C F psd \<Longrightarrow> i < C \<Longrightarrow> mat_shape C F (matPSDtmp psd i)"
  unfolding matPSDtmp_def
  by (auto simp: mat_shape_def wf_matrix_def list_all_length mk_matrix_def)

lemma mat_shape_cwiseQuotient:
  "mat_shape C F A \<Longrightarrow> mat_shape C F B \<Longrightarrow> mat_shape C F (cwiseQuotient A B)"
  by (auto simp: mat_shape_def wf_matrix_def cwiseQuotient_def list_all_length)

lemma mat_shape_cwiseSqrt: "mat_shape C F A \<Longrightarrow> mat_shape C F (cwiseSqrt A)"
  by (auto simp: mat_shape_def wf_matrix_def cwiseSqrt_def list_all_length)

lemma matCohy_shape:
  assumes "mat_shape C F (snd p)" "mat_shape C F psd" "0 \<le> fst p" "nat (fst p) < C"
  shows "\<exists>Q. matCohy p psd = Some Q \<and> mat_shape C F Q"
proof -
  have t: "mat_shape C F (matPSDtmp psd (nat (fst p)))"
    using assms by (simp add: mat_shape_matPSDtmp)
  then have "same_dims (snd p) (matPSDtmp psd (nat (fst p)))"
    using assms(1) by (simp add: same_dims_def mat_shape_def)
  moreover have "nat (fst p) < rows psd" using assms by (simp add: mat_shape_def)
  ultimately show ?thesis
    using assms t by (simp add: matCohy_def mat_shape_cwiseQuotient)
qed

lemma computePSDCSDReal_step: "computePSDCSDReal = edge_step weight_real"
  by (intro ext) (simp add: computePSDCSDReal_def edge_step_def)

lemma computePSDCSDImag_step: "computePSDCSDImag = edge_step weight_imag"
  by (intro ext) (simp add: computePSDCSDImag_def edge_step_def)

lemma edge_step_Some:
  assumes "mat_shape C F (snd p)" "mat_shape C F psd" "0 \<le> fst p" "nat (fst p) < C"
    and "C \<le> length (netNodes net)"
  shows "\<exists>net'. edge_step wgt net p psd = Some net' \<and>
           netEdges net' = netEdges net @ pair_edges wgt psd p \<and>
           length (netNodes net') = length (netNodes net) \<and>
           (\<forall>k < length (netNodes net). nodeEdges (netNodes net' ! k) =
              nodeEdges (netNodes net ! k)
                @ concat (map (\<lambda>j. (if k = nat (fst p) then [mk_edge (wgt (the (matCohy p psd))) (fst p) j] else [])
                                 @ (if k = j then [mk_edge (wgt (the (matCohy p psd))) (fst p) j] else []))
                            [nat (fst p)..<C]))"
proof -
  from matCohy_shape [OF assms(1-4)]
  obtain Q where Q: "matCohy p psd = Some Q" "mat_shape C F Q" by blast
  have rows: "rows Q = C" "rows (snd p) = C" using Q assms(1) by (simp_all add: mat_shape_def)
  have th: "the (matCohy p psd) = Q" by (simp add: Q)
  from edge_loop_Some [of "fst p" net "[nat (fst p)..<C]" "wgt Q"] assms
  show ?thesis unfolding th by (auto simp: edge_step_def Q rows pair_edges_def)
qed

lemma map_network_Some:
  assumes "list_all (\<lambda>p. 0 \<le> fst p \<and> nat (fst p) < C \<and> mat_shape C F (snd p)) csd"
    and "mat_shape C F psd" "C \<le> length (netNodes net)"
  shows "\<exists>net'. map_network (edge_step wgt) net csd psd = Some net' \<and>
           netEdges net' = netEdges net @ concat (map (pair_edges wgt psd) csd) \<and>
           length (netNodes net') = length (netNodes net)"
  using assms(1,3)
proof (induction csd arbitrary: net)
  case Nil
  then show ?case by simp
next
  case (Cons p csd)
  from edge_step_Some [of C F p psd net wgt] Cons.prems assms(2)
  obtain net1 where a: "edge_step wgt net p psd = Some net1"
      "netEdges net1 = netEdges net @ pair_edges wgt psd p"
      "length (netNodes net1) = length (netNodes net)"
    by auto
  from Cons.IH [of net1] Cons.prems a(3)
  obtain net' where "map_network (edge_step wgt) net1 csd psd = Some net'"
      "netEdges net' = netEdges net1 @ concat (map (pair_edges wgt psd) csd)"
      "length (netNodes net') = length (netNodes net1)"
    by auto
  with a show ?case by simp
qed

lemma csd_shape_list_all:
  assumes "csd_shape C F csd"
  shows "list_all (\<lambda>p. 0 \<le> fst p \<and> nat (fst p) < C \<and> mat_shape C F (snd p)) csd"
proof -
  have len: "length csd = C"
    using assms by (auto simp: csd_shape_def dest!: arg_cong [where f = length])
  have "fst (csd ! k) = int k" if "k < C" for k
  proof -
    have "map fst csd ! k = map int [0..<C] ! k" using assms by (simp add: csd_shape_def)
    with that len show ?thesis by simp
  qed
  with assms len show ?thesis by (auto simp: csd_shape_def list_all_length)
qed

lemma endpoints_pair_edges:
  "rows (snd p) = C \<Longrightarrow>
     map endpoints (pair_edges wgt psd p) = map (\<lambda>j. (fst p, int j)) [nat (fst p)..<C]"
  by (simp add: pair_edges_def endpoints_def mk_edge_def)

lemma endpoints_csd_edges:
  assumes "csd_shape C F csd"
  shows "map endpoints (concat (map (pair_edges wgt psd) csd)) = upper_pairs C"
proof -
  have "map endpoints (concat (map (pair_edges wgt psd) csd))
          = concat (map (\<lambda>p. map (\<lambda>j. (fst p, int j)) [nat (fst p)..<C]) csd)"
    using assms
    by (auto simp: map_concat csd_shape_def list_all_iff mat_shape_def endpoints_pair_edges
        intro!: arg_cong [where f = concat])
  also have "\<dots> = concat (map (\<lambda>i. map (\<lambda>j. (i, int j)) [nat i..<C]) (map fst csd))"
    by (simp add: comp_def)
  also have "\<dots> = upper_pairs C"
    using assms by (simp add: csd_shape_def upper_pairs_def pair_row_def [abs_def] comp_def)
  finally show ?thesis .
qed

subsection \<open>The pairs of a triangle\<close>

lemma set_upper_pairs:
  "set (upper_pairs C) = {(int i, int j) | i j. i \<le> j \<and> j < C}"
  unfolding upper_pairs_def pair_row_def by (force simp: image_iff)

lemma hd_pair_row: "i < C \<Longrightarrow> hd (pair_row C i) = (int i, int i)"
  by (simp add: pair_row_def hd_map upt_conv_Cons)

lemma distinct_pair_row: "distinct (pair_row C i)"
  by (simp add: pair_row_def distinct_map inj_on_def)

lemma fst_pair_row: "p \<in> set (pair_row C i) \<Longrightarrow> fst p = int i"
  by (auto simp: pair_row_def)

lemma distinct_upper_pairs: "distinct (upper_pairs C)"
proof -
  have "inj_on (pair_row C) {0..<C}"
  proof (rule inj_onI)
    fix x y assume xy: "x \<in> {0..<C}" "y \<in> {0..<C}" and eq: "pair_row C x = pair_row C y"
    have h: "hd (pair_row C x) = (int x, int x)" "hd (pair_row C y) = (int y, int y)"
      using xy by (simp_all add: hd_pair_row)
    from eq have "hd (pair_row C x) = hd (pair_row C y)" by (rule arg_cong)
    then have "(int x, int x) = (int y, int y)" unfolding h .
    then show "x = y" by simp
  qed
  then have d: "distinct (map (pair_row C) [0..<C])" by (simp add: distinct_map)
  show ?thesis unfolding upper_pairs_def
  proof (rule distinct_concat [OF d])
    fix ys assume "ys \<in> set (map (pair_row C) [0..<C])"
    then show "distinct ys" using distinct_pair_row by auto
  next
    fix ys zs
    assume "ys \<in> set (map (pair_row C) [0..<C])" "zs \<in> set (map (pair_row C) [0..<C])"
      and ne: "ys \<noteq> zs"
    then obtain i k where ik: "ys = pair_row C i" "zs = pair_row C k" by auto
    with ne have "i \<noteq> k" by auto
    have "False" if "p \<in> set ys" "p \<in> set zs" for p
      using that ik fst_pair_row [of p C i] fst_pair_row [of p C k] \<open>i \<noteq> k\<close> by simp
    then show "set ys \<inter> set zs = {}" by auto
  qed
qed

lemma length_upper_pairs: "length (upper_pairs C) = C * (C + 1) div 2"
proof -
  have "length (upper_pairs C) = (\<Sum>i<C. C - i)"
    by (simp add: upper_pairs_def pair_row_def length_concat comp_def sum_list_sum_nth
        atLeast0LessThan)
  also have "\<dots> = (\<Sum>i<C. Suc i)"
  proof -
    have "(\<Sum>i<C. Suc (C - Suc i)) = (\<Sum>i<C. Suc i)"
      by (rule sum.nat_diff_reindex)
    moreover have "(\<Sum>i<C. Suc (C - Suc i)) = (\<Sum>i<C. C - i)"
      by (rule sum.cong) auto
    ultimately show ?thesis by simp
  qed
  also have "\<dots> = C * (C + 1) div 2"
    by (induction C) auto
  finally show ?thesis .
qed

subsection \<open>Valid runs of the entry points\<close>

lemma calculate_network_valid:
  assumes "valid_run fft gen s" "nat (iNRows_of s) \<le> length (netNodes net)"
  shows "\<exists>net' s' ts psd csd.
           calculate_network (edge_step wgt) fft gen net s = Some (net', s') \<and>
           compute_phase fft gen s = Some (ts, psd, csd) \<and>
           netEdges net' = netEdges net @ concat (map (pair_edges wgt (cwiseSqrt psd)) csd) \<and>
           length (netNodes net') = length (netNodes net) \<and>
           m_dataList s' = ts \<and> matPsdSum (data s') = cwiseSqrt psd \<and>
           vecPairCsdSum (data s') = csd \<and>
           list_all (stored_result (nat (iNRows_of s)) (nat (iNFreqs_of s))) ts \<and>
           sums_shape (nat (iNRows_of s)) (nat (iNFreqs_of s)) psd csd"
proof -
  let ?C = "nat (iNRows_of s)" and ?F = "nat (iNFreqs_of s)"
  from compute_phase_valid [OF assms(1)]
  obtain ts psd csd where c: "compute_phase fft gen s = Some (ts, psd, csd)"
      "list_all (stored_result ?C ?F) ts" "sums_shape ?C ?F psd csd"
    by blast
  have sq: "mat_shape ?C ?F (cwiseSqrt psd)"
    using c(3) by (simp add: sums_shape_def mat_shape_cwiseSqrt)
  have cs: "csd_shape ?C ?F csd" using c(3) by (simp add: sums_shape_def)
  have la: "list_all (\<lambda>p. 0 \<le> fst p \<and> nat (fst p) < ?C \<and> mat_shape ?C ?F (snd p)) csd"
    by (rule csd_shape_list_all [OF cs])
  from map_network_Some [OF la sq assms(2), of wgt]
  obtain net' where n: "map_network (edge_step wgt) net csd (cwiseSqrt psd) = Some net'"
      "netEdges net' = netEdges net @ concat (map (pair_edges wgt (cwiseSqrt psd)) csd)"
      "length (netNodes net') = length (netNodes net)"
    by blast
  have ne: "m_dataList s \<noteq> []" using assms(1) by (simp add: valid_run_def)
  from c n ne show ?thesis by (simp add: calculate_network_def Let_def)
qed

lemma rows_weight_real: "rows (weight_real Q j) = length (coeffs Q ! j)"
  by (simp add: weight_real_def transpose_row_def mk_matrix_def)

lemma rows_weight_imag: "rows (weight_imag Q j) = length (coeffs Q ! j)"
  by (simp add: weight_imag_def transpose_row_def mk_matrix_def)

lemma mat_shape_transpose_row: "mat_shape (length xs) 1 (transpose_row xs)"
  by (simp add: transpose_row_def mat_shape_def mk_matrix_def wf_matrix_def list_all_iff)

lemma pair_edges_weight:
  assumes "mat_shape C F (snd p)" "mat_shape C F psd" "0 \<le> fst p" "nat (fst p) < C"
    and w: "\<And>Q j. wgt Q j = transpose_row (map g (coeffs Q ! j))"
  shows "list_all (\<lambda>e. mat_shape F 1 (matWeight e)) (pair_edges wgt psd p)"
proof -
  from matCohy_shape [OF assms(1-4)]
  obtain Q where Q: "matCohy p psd = Some Q" "mat_shape C F Q" by blast
  have "mat_shape F 1 (wgt Q j)" if "j < C" for j
    using mat_shape_transpose_row [of "map g (coeffs Q ! j)"] mat_shape_nth [OF Q(2) that]
    by (simp add: w)
  then show ?thesis
    using assms(1) by (simp add: pair_edges_def Q list_all_iff mk_edge_def mat_shape_def [of C])
qed

lemma csd_edges_weight:
  assumes "csd_shape C F csd" "mat_shape C F psd"
    and w: "\<And>Q j. wgt Q j = transpose_row (map g (coeffs Q ! j))"
  shows "list_all (\<lambda>e. mat_shape F 1 (matWeight e)) (concat (map (pair_edges wgt psd) csd))"
proof -
  have "list_all (\<lambda>e. mat_shape F 1 (matWeight e)) (pair_edges wgt psd p)" if "p \<in> set csd" for p
    using csd_shape_list_all [OF assms(1)] that
    by (intro pair_edges_weight [where C = C and g = g] assms(2) w) (auto simp: list_all_iff)
  then show ?thesis by (auto simp: list_all_iff)
qed

lemma run_edges:
  assumes "valid_run fft gen s" "nat (iNRows_of s) \<le> length (netNodes net)"
    and w: "\<And>Q j. wgt Q j = transpose_row (map g (coeffs Q ! j))"
  shows "\<exists>net' s' new. calculate_network (edge_step wgt) fft gen net s = Some (net', s') \<and>
           netEdges net' = netEdges net @ new \<and>
           map endpoints new = upper_pairs (nat (iNRows_of s)) \<and>
           list_all (\<lambda>e. mat_shape (nat (iNFreqs_of s)) 1 (matWeight e)) new"
proof -
  from calculate_network_valid [OF assms(1,2), of wgt]
  obtain net' s' ts psd csd where r:
      "calculate_network (edge_step wgt) fft gen net s = Some (net', s')"
      "compute_phase fft gen s = Some (ts, psd, csd)"
      "netEdges net' = netEdges net @ concat (map (pair_edges wgt (cwiseSqrt psd)) csd)"
      "sums_shape (nat (iNRows_of s)) (nat (iNFreqs_of s)) psd csd"
    by blast
  have sq: "mat_shape (nat (iNRows_of s)) (nat (iNFreqs_of s)) (cwiseSqrt psd)"
    using r(4) by (simp add: sums_shape_def mat_shape_cwiseSqrt)
  have cs: "csd_shape (nat (iNRows_of s)) (nat (iNFreqs_of s)) csd"
    using r(4) by (simp add: sums_shape_def)
  from r(1,3) endpoints_csd_edges [OF cs] csd_edges_weight [OF cs sq w]
  show ?thesis by blast
qed

lemma valid_run_settings3x2: "valid_run dft_half ramp_tapers (settings3x2 n)"
  by (simp add: valid_run_def settings3x2_def trial3x2_def iSignalLength_of_def iNRows_of_def
      valid_trial_def mat_shape_def wf_matrix_def mk_matrix_def fresh_trial_def valid_tapers_def
      ramp_tapers_def half_spectrum_def dft_half_def sums_empty_def empty_matrix_def)

lemma valid_run_settings2x2: "valid_run dft_half ramp_tapers (settings2x2 n)"
  by (simp add: valid_run_def settings2x2_def trial2x2_def iSignalLength_of_def iNRows_of_def
      valid_trial_def mat_shape_def wf_matrix_def mk_matrix_def fresh_trial_def valid_tapers_def
      ramp_tapers_def half_spectrum_def dft_half_def sums_empty_def empty_matrix_def)

lemma iNRows_of_settings3x2 [simp]: "iNRows_of (settings3x2 n) = 3"
  by (simp add: iNRows_of_def settings3x2_def trial3x2_def mk_matrix_def)

lemma iNRows_of_settings2x2 [simp]: "iNRows_of (settings2x2 n) = 2"
  by (simp add: iNRows_of_def settings2x2_def trial2x2_def mk_matrix_def)

lemma new_network_simps [simp]:
  "length (netNodes (new_network n)) = n" "netEdges (new_network n) = []"
  by (simp_all add: new_network_def)

lemma map_computePSDCSD_Some:
  assumes "list_all (\<lambda>p. 0 \<le> fst p \<and> nat (fst p) < C \<and> mat_shape C F (snd p)) csd"
    and "mat_shape C F psd"
  shows "\<exists>v. map_computePSDCSD csd psd = Some v \<and> map fst v = map fst csd \<and>
             list_all (\<lambda>p. mat_shape C F (snd p)) v"
  using assms(1)
proof (induction csd)
  case Nil
  then show ?case by simp
next
  case (Cons p csd)
  from matCohy_shape [of C F p psd] Cons.prems assms(2)
  obtain Q where Q: "matCohy p psd = Some Q" "mat_shape C F Q" by auto
  from Cons.IH Cons.prems
  obtain v where v: "map_computePSDCSD csd psd = Some v" "map fst v = map fst csd"
      "list_all (\<lambda>p. mat_shape C F (snd p)) v"
    by auto
  from Q v show ?case by (simp add: computePSDCSD_def)
qed

lemma calculate_valid:
  assumes "valid_run fft gen s"
  shows "\<exists>v s' ts psd csd.
           calculate fft gen v0 s = Some (v, s') \<and>
           compute_phase fft gen s = Some (ts, psd, csd) \<and>
           m_dataList s' = ts \<and> matPsdSum (data s') = cwiseSqrt psd \<and>
           vecPairCsdSum (data s') = v \<and>
           csd_shape (nat (iNRows_of s)) (nat (iNFreqs_of s)) v \<and>
           list_all (stored_result (nat (iNRows_of s)) (nat (iNFreqs_of s))) ts \<and>
           sums_shape (nat (iNRows_of s)) (nat (iNFreqs_of s)) psd csd"
proof -
  let ?C = "nat (iNRows_of s)" and ?F = "nat (iNFreqs_of s)"
  from compute_phase_valid [OF assms(1)]
  obtain ts psd csd where c: "compute_phase fft gen s = Some (ts, psd, csd)"
      "list_all (stored_result ?C ?F) ts" "sums_shape ?C ?F psd csd"
    by blast
  have sq: "mat_shape ?C ?F (cwiseSqrt psd)"
    using c(3) by (simp add: sums_shape_def mat_shape_cwiseSqrt)
  have cs: "csd_shape ?C ?F csd" using c(3) by (simp add: sums_shape_def)
  have la: "list_all (\<lambda>p. 0 \<le> fst p \<and> nat (fst p) < ?C \<and> mat_shape ?C ?F (snd p)) csd"
    by (rule csd_shape_list_all [OF cs])
  from map_computePSDCSD_Some [OF la sq]
  obtain v where v: "map_computePSDCSD csd (cwiseSqrt psd) = Some v" "map fst v = map fst csd"
      "list_all (\<lambda>p. mat_shape ?C ?F (snd p)) v"
    by blast
  have vs: "csd_shape ?C ?F v" using v(2,3) cs by (simp add: csd_shape_def)
  have ne: "m_dataList s \<noteq> []" using assms(1) by (simp add: valid_run_def)
  from c v(1) vs ne show ?thesis by (simp add: calculate_def Let_def)
qed

lemma bins_matrix_shape: "mat_shape C F M \<Longrightarrow> bins_matrix F M"
  by (auto simp: mat_shape_def wf_matrix_def bins_matrix_def)

lemma bins_csd_shape: "csd_shape C F cs \<Longrightarrow> list_all (\<lambda>p. bins_matrix F (snd p)) cs"
  by (auto simp: csd_shape_def list_all_iff intro: bins_matrix_shape)

lemma bins_trial_stored: "stored_result C F t \<Longrightarrow> bins_trial F t"
  unfolding stored_result_def bins_trial_def
  by (blast intro: bins_matrix_shape bins_csd_shape)

lemma bins_settings_run:
  assumes "list_all (stored_result C F) (m_dataList s')"
    and "mat_shape C F psd" "matPsdSum (data s') = cwiseSqrt psd"
    and "csd_shape C F (vecPairCsdSum (data s'))"
  shows "bins_settings F s'"
proof -
  have "list_all (bins_trial F) (m_dataList s')"
    using assms(1) by (auto simp: list_all_iff intro: bins_trial_stored)
  moreover have "bins_matrix F (matPsdSum (data s'))"
    unfolding assms(3) by (rule bins_matrix_shape [OF mat_shape_cwiseSqrt [OF assms(2)]])
  moreover have "list_all (\<lambda>p. bins_matrix F (snd p)) (vecPairCsdSum (data s'))"
    by (rule bins_csd_shape [OF assms(4)])
  ultimately show ?thesis by (simp add: bins_settings_def)
qed

lemma bins_edges_shape:
  "list_all (\<lambda>e. mat_shape F 1 (matWeight e)) es \<Longrightarrow> bins_edges F es"
  by (simp add: bins_edges_def list_all_iff mat_shape_def wf_matrix_def)

lemma run_bins:
  assumes "valid_run fft gen s" "nat (iNRows_of s) \<le> length (netNodes net)"
    and w: "\<And>Q j. wgt Q j = transpose_row (map g (coeffs Q ! j))"
  shows "\<exists>net' s'. calculate_network (edge_step wgt) fft gen net s = Some (net', s') \<and>
           bins_settings (nat (iNFreqs_of s)) s' \<and>
           bins_edges (nat (iNFreqs_of s)) (drop (length (netEdges net)) (netEdges net'))"
proof -
  let ?C = "nat (iNRows_of s)" and ?F = "nat (iNFreqs_of s)"
  from calculate_network_valid [OF assms(1,2), of wgt]
  obtain net' s' ts psd csd where r:
      "calculate_network (edge_step wgt) fft gen net s = Some (net', s')"
      "netEdges net' = netEdges net @ concat (map (pair_edges wgt (cwiseSqrt psd)) csd)"
      "m_dataList s' = ts" "matPsdSum (data s') = cwiseSqrt psd" "vecPairCsdSum (data s') = csd"
      "list_all (stored_result ?C ?F) ts" "sums_shape ?C ?F psd csd"
    by blast
  have sh: "mat_shape ?C ?F psd" "csd_shape ?C ?F csd" using r(7) by (simp_all add: sums_shape_def)
  have b: "bins_settings ?F s'"
    using r(3-6) sh by (intro bins_settings_run [where C = ?C and psd = psd]) simp_all
  have "bins_edges ?F (concat (map (pair_edges wgt (cwiseSqrt psd)) csd))"
    by (intro bins_edges_shape csd_edges_weight [OF sh(2) mat_shape_cwiseSqrt [OF sh(1)] w])
  then have e: "bins_edges ?F (drop (length (netEdges net)) (netEdges net'))"
    by (simp add: r(2))
  from r(1) b e show ?thesis by blast
qed

subsection \<open>Self-pairs\<close>

lemma count_list_concat_notin:
  "(\<And>j. j \<in> set js \<Longrightarrow> x \<notin> set (f j)) \<Longrightarrow> count_list (concat (map f js)) x = 0"
  by (induction js) auto

lemma edge_loop_self:
  assumes "0 \<le> i" "nat i < R" "R \<le> length (netNodes net)"
  shows "\<exists>net'. edge_loop w i net [nat i..<R] = Some net' \<and>
           count_list (nodeEdges (netNodes net' ! nat i)) (mk_edge w i (nat i))
             = count_list (nodeEdges (netNodes net ! nat i)) (mk_edge w i (nat i)) + 2 \<and>
           count_list (netEdges net') (mk_edge w i (nat i))
             = count_list (netEdges net) (mk_edge w i (nat i)) + 1"
proof -
  let ?e = "mk_edge w i (nat i)"
  let ?f = "\<lambda>j. (if nat i = nat i then [mk_edge w i j] else []) @ (if nat i = j then [mk_edge w i j] else [])"
  from edge_loop_Some [of i net "[nat i..<R]" w] assms
  obtain net' where r: "edge_loop w i net [nat i..<R] = Some net'"
      "netEdges net' = netEdges net @ map (mk_edge w i) [nat i..<R]"
      "nodeEdges (netNodes net' ! nat i) = nodeEdges (netNodes net ! nat i) @ concat (map ?f [nat i..<R])"
    by auto
  have split: "[nat i..<R] = nat i # [Suc (nat i)..<R]"
    using assms(2) by (simp add: upt_conv_Cons)
  have ne: "?e \<notin> set (?f j)" if "j \<in> set [Suc (nat i)..<R]" for j
    using that by (auto simp: mk_edge_def)
  have c1: "count_list (concat (map ?f [Suc (nat i)..<R])) ?e = 0"
    by (rule count_list_concat_notin) (rule ne(1))
  have "?e \<notin> set (map (mk_edge w i) [Suc (nat i)..<R])"
    by (auto simp: mk_edge_def)
  then have c2: "count_list (map (mk_edge w i) [Suc (nat i)..<R]) ?e = 0"
    by (simp add: count_list_0_iff)
  have a: "count_list (concat (map ?f [nat i..<R])) ?e = 2"
    unfolding split using c1 by simp
  have b: "count_list (map (mk_edge w i) [nat i..<R]) ?e = 1"
    unfolding split using c2 by simp
  from r a b show ?thesis by simp
qed

lemma matCohy_SomeD:
  assumes "matCohy p psd = Some Q"
  shows "0 \<le> fst p" "nat (fst p) < rows Q"
  using assms
  by (auto simp: matCohy_def same_dims_def matPSDtmp_def mk_matrix_def cwiseQuotient_def
      split: if_splits)

subsection \<open>What a merge and a call do\<close>

lemma compute_already:
  "already_computed t R F \<Longrightarrow> compute fft t psd csd R F n tp = Some (t, psd, csd)"
  by (simp add: compute_def)

lemma merge_csd_loop_nth:
  assumes "merge_csd_loop as cs = Some r"
  shows "length r = length as \<and>
         (\<forall>j < length as. r ! j = (fst (as ! j), mat_add (snd (as ! j)) (snd (cs ! j))))"
  using assms
proof (induction as cs arbitrary: r rule: merge_csd_loop.induct)
  case (1 cs)
  then show ?case by simp
next
  case (2 a as)
  then show ?case by simp
next
  case (3 a as c cs)
  from "3.prems" obtain r' where r': "merge_csd_loop as cs = Some r'"
      "r = (fst a, mat_add (snd a) (snd c)) # r'" and sd: "same_dims (snd a) (snd c)"
    by (auto split: if_splits option.splits)
  from "3.IH" [OF sd r'(1)] have ih: "length r' = length as"
      "\<forall>j < length as. r' ! j = (fst (as ! j), mat_add (snd (as ! j)) (snd (cs ! j)))"
    by simp_all
  show ?case
  proof (intro conjI allI impI)
    show "length r = length (a # as)" using r'(2) ih(1) by simp
    fix j assume "j < length (a # as)"
    then show "r ! j = (fst ((a # as) ! j), mat_add (snd ((a # as) ! j)) (snd ((c # cs) ! j)))"
      using r'(2) ih(2) by (cases j) simp_all
  qed
qed

lemma compute_merge:
  assumes "\<not> already_computed t R F" "compute fft t psd csd R F n tp = Some (t', psd', csd')"
  shows "t' = compute_trial fft t R F n tp \<and>
         psd' = (if rows psd = 0 \<or> cols psd = 0 then matPsd t' else mat_add psd (matPsd t')) \<and>
         (csd = [] \<longrightarrow> csd' = vecPairCsd t') \<and>
         (csd \<noteq> [] \<longrightarrow> length csd' = length csd \<and>
            (\<forall>j < length csd. csd' ! j
                = (fst (csd ! j), mat_add (snd (csd ! j)) (snd (vecPairCsd t' ! j)))))"
proof -
  from assms have t': "t' = compute_trial fft t R F n tp"
    and p: "merge_psd psd (matPsd t') = Some psd'"
    and c: "merge_csd csd (vecPairCsd t') = Some csd'"
    by (auto simp: compute_def Let_def split: if_splits option.splits)
  from p have "psd' = (if rows psd = 0 \<or> cols psd = 0 then matPsd t' else mat_add psd (matPsd t'))"
    by (auto simp: merge_psd_def split: if_splits)
  moreover from c have "csd = [] \<longrightarrow> csd' = vecPairCsd t'"
    by (auto simp: merge_csd_def)
  moreover have "length csd' = length csd \<and>
      (\<forall>j < length csd. csd' ! j = (fst (csd ! j), mat_add (snd (csd ! j)) (snd (vecPairCsd t' ! j))))"
    if "csd \<noteq> []"
    using c that by (intro merge_csd_loop_nth) (simp add: merge_csd_def)
  ultimately show ?thesis using t' by blast
qed

lemma calculate_network_SomeD:
  assumes "calculate_network step fft gen net s = Some (net', s')" "m_dataList s \<noteq> []"
  shows "\<exists>ts psd csd. compute_phase fft gen s = Some (ts, psd, csd) \<and>
           map_network step net csd (cwiseSqrt psd) = Some net' \<and>
           s' = s\<lparr>m_dataList := ts, data := \<lparr>matPsdSum = cwiseSqrt psd, vecPairCsdSum = csd\<rparr>\<rparr>"
  using assms by (auto simp: calculate_network_def Let_def split: option.splits)

lemma calculate_SomeD:
  assumes "calculate fft gen v0 s = Some (v, s')" "m_dataList s \<noteq> []"
  shows "\<exists>ts psd csd. compute_phase fft gen s = Some (ts, psd, csd) \<and>
           map_computePSDCSD csd (cwiseSqrt psd) = Some v \<and>
           s' = s\<lparr>m_dataList := ts, data := \<lparr>matPsdSum = cwiseSqrt psd, vecPairCsdSum = v\<rparr>\<rparr>"
  using assms by (auto simp: calculate_def Let_def split: option.splits)

lemma nth_mat_add:
  assumes "i < length (coeffs A)" "i < length (coeffs B)"
    and "k < length (coeffs A ! i)" "k < length (coeffs B ! i)"
  shows "coeffs (mat_add A B) ! i ! k = coeffs A ! i ! k + coeffs B ! i ! k"
  using assms by (simp add: mat_add_def)

lemma map_int_upt_2: "map int [0..<2] = [0, 1]"
  by (simp add: numeral_2_eq_2)

lemma settings_kept_values:
  "iNRows_of settings_kept = 2" "iNfft_of settings_kept = 2" "iNFreqs_of settings_kept = 2"
  "iSignalLength_of settings_kept = 2"
  by (simp_all add: iNFreqs_of_div iNRows_of_def iNfft_of_def iSignalLength_of_def settings_kept_def
      trial2x2_stored_def trial2x2_def mk_matrix_def)

lemma valid_run_settings_kept: "valid_run dft_half ramp_tapers settings_kept"
  unfolding valid_run_def settings_kept_values
  by (simp add: settings_kept_def trial2x2_stored_def trial2x2_def
      valid_trial_def mat_shape_def wf_matrix_def mk_matrix_def fresh_trial_def valid_tapers_def
      ramp_tapers_def half_spectrum_def dft_half_def sums_shape_def csd_shape_def stored_result_def
      empty_matrix_def map_int_upt_2)

lemma trial2x2_not_computed: "\<not> already_computed trial2x2 2 2"
  by (rule fresh_not_already_computed) (simp_all add: fresh_trial_def trial2x2_def)

lemma compute_trial2x2_kept:
  "\<exists>t' psd' csd'.
     compute dft_half trial2x2 (matPsdSum (data settings_kept)) (vecPairCsdSum (data settings_kept))
       2 2 2 (ramp_tapers 2 ''hanning'') = Some (t', psd', csd') \<and>
     stored_result 2 2 t'"
proof -
  let ?P = "matPsdSum (data settings_kept)" and ?C = "vecPairCsdSum (data settings_kept)"
  let ?tp = "ramp_tapers 2 ''hanning''"
  have vt: "valid_trial 2 2 2 trial2x2"
    by (simp add: valid_trial_def fresh_trial_def trial2x2_def mat_shape_def wf_matrix_def
        mk_matrix_def)
  have vtp: "valid_tapers 2 ?tp"
    by (simp add: valid_tapers_def ramp_tapers_def mk_matrix_def wf_matrix_def)
  have hs: "half_spectrum dft_half 2" by (simp add: half_spectrum_def dft_half_def)
  have ss: "sums_shape 2 2 ?P ?C"
    by (simp add: settings_kept_def sums_shape_def csd_shape_def mat_shape_def wf_matrix_def
        mk_matrix_def map_int_upt_2)
  have F: "(2::nat) = nat (2 div 2 + 1)" by simp
  have pos: "0 < (2::nat)" by simp
  from compute_valid [OF vt pos pos vtp hs F disjI1 [OF ss]]
  obtain t' psd' csd' where
    c: "compute dft_half trial2x2 ?P ?C (int 2) (int 2) 2 ?tp = Some (t', psd', csd')"
      and sr: "stored_result 2 2 t'"
    by blast
  have i2: "int 2 = 2" by simp
  from c sr show ?thesis unfolding i2 by blast
qed

lemma compute_phase_settings_kept:
  "\<exists>t' csd'. compute_phase dft_half ramp_tapers settings_kept
          = Some ([trial2x2_stored, t'],
                  mat_add (matPsdSum (data settings_kept)) (matPsd t'), csd') \<and>
        mat_shape 2 2 (matPsd t')"
proof -
  let ?P = "matPsdSum (data settings_kept)" and ?C = "vecPairCsdSum (data settings_kept)"
  let ?tp = "ramp_tapers 2 ''hanning''"
  have st: "already_computed trial2x2_stored 2 2"
    by (simp add: already_computed_def trial2x2_stored_def trial2x2_def mk_matrix_def)
  from compute_trial2x2_kept
  obtain t' psd' csd' where
    c': "compute dft_half trial2x2 ?P ?C 2 2 2 ?tp = Some (t', psd', csd')"
      and sr: "stored_result 2 2 t'"
    by blast
  have "rows ?P = 2" "cols ?P = 2" by (simp_all add: settings_kept_def mk_matrix_def)
  with compute_merge [OF trial2x2_not_computed c'] have p: "psd' = mat_add ?P (matPsd t')"
    by simp
  have dl: "m_dataList settings_kept = [trial2x2_stored, trial2x2]"
    "m_sWindowType settings_kept = ''hanning''"
    by (simp_all add: settings_kept_def)
  have "compute_phase dft_half ramp_tapers settings_kept
          = map_compute dft_half [trial2x2_stored, trial2x2] ?P ?C 2 2 2 ?tp"
    unfolding compute_phase_def settings_kept_values dl ..
  also have "\<dots> = Some ([trial2x2_stored, t'], psd', csd')"
    by (simp only: map_compute.simps compute_already [OF st] option.case prod.case c')
  finally have "compute_phase dft_half ramp_tapers settings_kept
      = Some ([trial2x2_stored, t'], psd', csd')" .
  moreover have "mat_shape 2 2 (matPsd t')" using sr by (simp add: stored_result_def)
  ultimately show ?thesis unfolding p by blast
qed

subsection \<open>Calls on memoized trials\<close>

lemma map_compute_all_early:
  "list_all (\<lambda>t. already_computed t R F) ts \<Longrightarrow>
     map_compute fft ts psd csd R F n tp = Some (ts, psd, csd)"
  by (induction ts) (simp_all add: compute_already)

lemma compute_phase_all_early:
  "all_memoized s \<Longrightarrow>
     compute_phase fft gen s = Some (m_dataList s, matPsdSum (data s), vecPairCsdSum (data s))"
  by (simp add: all_memoized_def compute_phase_def map_compute_all_early)

lemma settings_update_values:
  assumes "map matData ts = map matData (m_dataList s)" "m_dataList s \<noteq> []"
  shows "iNRows_of (s\<lparr>m_dataList := ts, data := d\<rparr>) = iNRows_of s"
    and "iNFreqs_of (s\<lparr>m_dataList := ts, data := d\<rparr>) = iNFreqs_of s"
proof -
  from assms have "ts \<noteq> []" by auto
  with assms have "matData (hd ts) = matData (hd (m_dataList s))"
    by (metis hd_map)
  then show "iNRows_of (s\<lparr>m_dataList := ts, data := d\<rparr>) = iNRows_of s"
    and "iNFreqs_of (s\<lparr>m_dataList := ts, data := d\<rparr>) = iNFreqs_of s"
    by (simp_all add: iNRows_of_def iNFreqs_of_def iNfft_of_def iSignalLength_of_def)
qed

lemma all_memoized_after:
  assumes v: "valid_run fft gen s" and c: "compute_phase fft gen s = Some (ts, psd, csd)"
  shows "all_memoized (s\<lparr>m_dataList := ts, data := d\<rparr>)"
proof -
  let ?C = "nat (iNRows_of s)" and ?F = "nat (iNFreqs_of s)"
  from compute_phase_valid [OF v] c
  have m: "map matData ts = map matData (m_dataList s)"
    and st: "list_all (stored_result ?C ?F) ts"
    by auto
  have ne: "m_dataList s \<noteq> []" using v by (simp add: valid_run_def)
  then have ne': "ts \<noteq> []" using m by auto
  have ints: "int ?C = iNRows_of s" "int ?F = iNFreqs_of s"
    using iNFreqs_of_pos [of s] by (simp_all add: iNRows_of_def)
  have "list_all (\<lambda>t. already_computed t (iNRows_of s) (iNFreqs_of s)) ts"
    using st stored_result_already_computed [of ?C ?F] unfolding ints
    by (auto simp: list_all_iff)
  with ne' show ?thesis
    by (simp add: all_memoized_def settings_update_values [OF m ne])
qed

lemma upt_0_2: "[0..<2] = [0, 1]"
  by (simp add: numeral_2_eq_2)

lemma settings_after_values:
  "iNRows_of settings_after = 2" "iNfft_of settings_after = 2" "iNFreqs_of settings_after = 2"
  "iSignalLength_of settings_after = 2"
  by (simp_all add: iNFreqs_of_div iNRows_of_def iNfft_of_def iSignalLength_of_def settings_after_def
      trial2x2_stored_def trial2x2_def mk_matrix_def)

lemma all_memoized_settings_after: "all_memoized settings_after"
  unfolding all_memoized_def settings_after_values
  by (simp add: settings_after_def already_computed_def trial2x2_stored_def trial2x2_def
      mk_matrix_def)

lemma valid_run_settings_after: "valid_run dft_half ramp_tapers settings_after"
  unfolding valid_run_def settings_after_values
  by (simp add: settings_after_def trial2x2_stored_def trial2x2_def
      valid_trial_def mat_shape_def wf_matrix_def mk_matrix_def fresh_trial_def valid_tapers_def
      ramp_tapers_def half_spectrum_def dft_half_def sums_shape_def csd_shape_def stored_result_def
      empty_matrix_def map_int_upt_2)

lemma normalised_settings_after:
  "map_computePSDCSD (vecPairCsdSum (data settings_after))
       (cwiseSqrt (matPsdSum (data settings_after)))
     = Some [(0, mk_matrix 2 2 [[4, 4], [4, 4]]), (1, mk_matrix 2 2 [[4, 4], [4, 4]])]"
  by (simp add: settings_after_def computePSDCSD_def matCohy_def same_dims_def matPSDtmp_def
      mk_matrix_def cwiseQuotient_def cwiseSqrt_def upt_0_2)

subsection \<open>Inputs that are not validated\<close>














subsection \<open>The bins of the spectra\<close>

lemma compute_SomeD:
  assumes "\<not> already_computed t R F" "compute fft t psd csd R F n tp = Some (t', psd', csd')"
  shows "compute_ok fft t R F n tp" "t' = compute_trial fft t R F n tp"
  using assms by (auto simp: compute_def Let_def split: if_splits option.splits)

lemma tapSpectra_nth:
  "j < rows (fst tp) \<Longrightarrow>
     tapSpectra fft n tp D i ! j
       = map (\<lambda>z. z * complex_of_real (snd tp ! j))
           (fft n (map2 (*) (demean (coeffs D ! i)) (coeffs (fst tp) ! j)))"
  by (simp add: tapSpectra_def matTapSpectrum_def tapered_input_def)

lemma tapSpectra_row_length:
  assumes "compute_ok fft t R F n tp" "i < nat R" "j < rows (fst tp)"
  shows "length (tapSpectra fft n tp (matData t) i ! j) = nat F"
  using assms
  by (auto simp: compute_ok_def list_all_length tapSpectra_def matTapSpectrum_def)

lemma psd_row_nth:
  assumes ok: "compute_ok fft t R F n tp" and i: "i < nat R" and k: "k < nat F"
  shows "psd_row fft n (nat F) tp (matData t) i ! k
           = (\<Sum>j<rows (fst tp). (cmod (tapSpectra fft n tp (matData t) i ! j ! k))\<^sup>2)
               / (sum_abs2 (snd tp) / 2)
               / (if k = 0 then 2 else 1)
               / (if n mod 2 = 0 \<and> k = nat F - 1 then 2 else 1)"
proof -
  let ?S = "tapSpectra fft n tp (matData t) i"
  have "colwise_sum (nat F) (map (map (\<lambda>z. (cmod z)\<^sup>2)) ?S) ! k
          = (\<Sum>j<rows (fst tp). (cmod (?S ! j ! k))\<^sup>2)"
    using k tapSpectra_row_length [OF ok i]
    by (simp add: nth_colwise_sum)
  then show ?thesis
    using k by (simp add: psd_row_def nth_halve_ends denomPSD_def)
qed

lemma csd_row_nth:
  assumes ok: "compute_ok fft t R F n tp" and i: "i < nat R" and j: "j < nat R"
    and k: "k < nat F"
  shows "csd_row fft n (nat F) tp (matData t) i j ! k
           = (\<Sum>m<rows (fst tp). tapSpectra fft n tp (matData t) i ! m ! k
                                  * cnj (tapSpectra fft n tp (matData t) j ! m ! k))
               / complex_of_real (sum_abs2 (snd tp) / 2)
               / (if k = 0 then 2 else 1)
               / (if n mod 2 = 0 \<and> k = nat F - 1 then 2 else 1)"
proof -
  let ?A = "tapSpectra fft n tp (matData t) i" and ?B = "tapSpectra fft n tp (matData t) j"
  have "colwise_sum (nat F) (map2 (map2 (\<lambda>a b. a * cnj b)) ?A ?B) ! k
          = (\<Sum>m<rows (fst tp). ?A ! m ! k * cnj (?B ! m ! k))"
    using k tapSpectra_row_length [OF ok i] tapSpectra_row_length [OF ok j]
    by (simp add: nth_colwise_sum)
  then show ?thesis
    using k by (simp add: csd_row_def nth_halve_ends denomCSD_eq_denomPSD denomPSD_def)
qed

lemma csd_outer_upper:
  assumes "i < n" "i \<le> j" "j < n" "length m = n"
  shows "fst (csd_outer f n nF m [0..<n] ! i) = int i \<and>
         coeffs (snd (csd_outer f n nF m [0..<n] ! i)) ! j = f i j"
proof -
  from csd_outer_nth [of i "[0..<n]" m n f nF] assms
  obtain m' where "length m' = n"
      "csd_outer f n nF m [0..<n] ! i = (int i, mk_matrix n nF (csd_inner f n i m'))"
    by auto
  with assms show ?thesis by (simp add: mk_matrix_def nth_csd_inner)
qed

lemma cis_minus_pi: "cis (- pi) = - 1"
  by (simp add: complex_eq_iff)

lemma dft_half_2: "dft_half 2 [a, b] = [complex_of_real (a + b), complex_of_real (a - b)]"
  by (simp add: dft_half_def upt_0_2 lessThan_nat_numeral lessThan_Suc cis_minus_pi)

lemma demean_2: "demean [a, b] = [(a - b) / 2, (b - a) / 2]"
  by (simp add: demean_def mean_def field_simps)

lemma tapSpectra_trial2x2:
  "tapSpectra dft_half 2 (ramp_tapers 2 ''hanning'') (matData trial2x2) 0 ! 0 = [1, - 3]"
  by (simp add: tapSpectra_nth ramp_tapers_def mk_matrix_def trial2x2_def demean_2 upt_0_2
      dft_half_2)

lemma compute_trial2x2_fresh:
  "\<exists>t' psd' csd'.
     compute dft_half trial2x2 empty_matrix [] 2 2 2 (ramp_tapers 2 ''hanning'')
       = Some (t', psd', csd')"
proof -
  let ?tp = "ramp_tapers 2 ''hanning''"
  have vt: "valid_trial 2 2 2 trial2x2"
    by (simp add: valid_trial_def fresh_trial_def trial2x2_def mat_shape_def wf_matrix_def
        mk_matrix_def)
  have vtp: "valid_tapers 2 ?tp"
    by (simp add: valid_tapers_def ramp_tapers_def mk_matrix_def wf_matrix_def)
  have hs: "half_spectrum dft_half 2" by (simp add: half_spectrum_def dft_half_def)
  have se: "sums_empty (empty_matrix :: real matrix) []"
    by (simp add: sums_empty_def empty_matrix_def)
  have F: "(2::nat) = nat (2 div 2 + 1)" by simp
  have pos: "0 < (2::nat)" by simp
  from compute_valid [OF vt pos pos vtp hs F disjI2 [OF se]]
  obtain t' psd' csd' where
    c: "compute dft_half trial2x2 empty_matrix [] (int 2) (int 2) 2 ?tp = Some (t', psd', csd')"
    by blast
  have i2: "int 2 = 2" by simp
  from c show ?thesis unfolding i2 by blast
qed

subsection \<open>Copies of one trial\<close>







lemma scale_real_dims [simp]:
  "rows (scale_real a P) = rows P" "cols (scale_real a P) = cols P"
  by (simp_all add: scale_real_def)

lemma scale_complex_dims [simp]:
  "rows (scale_complex a M) = rows M" "cols (scale_complex a M) = cols M"
  by (simp_all add: scale_complex_def)


























subsection \<open>A generator that may fail\<close>





subsection \<open>Trials that do not fit the first one\<close>














section \<open>Properties\<close>

text \<open>
  C8 (memoization): a trial whose stored result already has the expected shape (a CSD
  pair list of \<open>iNRows\<close> entries and a PSD matrix of \<open>iNRows\<close> rows and \<open>iNFreqs\<close>
  columns) is returned by \<^verbatim>\<open>compute\<close> as it is: nothing is recomputed, the stored PSD
  and CSD of the trial are unchanged, and the running sums are unchanged too.
\<close>

theorem compute_memoized:
  assumes "already_computed inputData iNRows iNFreqs"
  shows "compute fft inputData psdSum csdAvg iNRows iNFreqs iNfft tapers
           = Some (inputData, psdSum, csdAvg)"
  using assms by (simp add: compute_def)

theorem compute_memoized_witness:
  "already_computed trial2x2_stored 2 2 \<and>
   compute dft_half trial2x2_stored empty_matrix [] 2 2 2 (ramp_tapers 2 ''hanning'')
     = Some (trial2x2_stored, empty_matrix, [])"
proof -
  have h: "already_computed trial2x2_stored 2 2"
    by (simp add: already_computed_def trial2x2_stored_def trial2x2_def mk_matrix_def)
  from h compute_memoized [OF h] show ?thesis by simp
qed

text \<open>
  C2 (one edge per unordered pair): in a valid run over \<open>C\<close> channels, started on a
  network that has the nodes of the run and no edge yet, \<^verbatim>\<open>calculateReal\<close> and
  \<^verbatim>\<open>calculateImag\<close> return a network whose edges have pairwise different end points,
  whose end points are exactly the pairs \<open>(i, j)\<close> with \<open>i \<le> j < C\<close> (self-pairs
  included, no pair \<open>(j, i)\<close> with \<open>i < j\<close>), \<open>C (C + 1) / 2\<close> edges in all, each with
  a weight vector of the length of the frequency axis: the weight is a well-formed
  matrix of one column with one row, holding one coefficient, for every frequency bin of
  the run. The order of the edges depends on the scheduling and is not part of the
  statement.
\<close>

theorem one_edge_per_channel_pair:
  assumes "valid_run fft gen s"
    and "nat (iNRows_of s) \<le> length (netNodes net)" and "netEdges net = []"
  shows "(\<exists>net' s'. calculateReal fft gen net s = Some (net', s') \<and>
            distinct (map endpoints (netEdges net')) \<and>
            set (map endpoints (netEdges net'))
              = {(int i, int j) | i j. i \<le> j \<and> j < nat (iNRows_of s)} \<and>
            length (netEdges net') = nat (iNRows_of s) * (nat (iNRows_of s) + 1) div 2 \<and>
            list_all (\<lambda>e. mat_shape (nat (iNFreqs_of s)) 1 (matWeight e)) (netEdges net')) \<and>
         (\<exists>net' s'. calculateImag fft gen net s = Some (net', s') \<and>
            distinct (map endpoints (netEdges net')) \<and>
            set (map endpoints (netEdges net'))
              = {(int i, int j) | i j. i \<le> j \<and> j < nat (iNRows_of s)} \<and>
            length (netEdges net') = nat (iNRows_of s) * (nat (iNRows_of s) + 1) div 2 \<and>
            list_all (\<lambda>e. mat_shape (nat (iNFreqs_of s)) 1 (matWeight e)) (netEdges net'))"
proof -
  have main: "\<exists>net' s'. calculate_network (edge_step wgt) fft gen net s = Some (net', s') \<and>
            distinct (map endpoints (netEdges net')) \<and>
            set (map endpoints (netEdges net'))
              = {(int i, int j) | i j. i \<le> j \<and> j < nat (iNRows_of s)} \<and>
            length (netEdges net') = nat (iNRows_of s) * (nat (iNRows_of s) + 1) div 2 \<and>
            list_all (\<lambda>e. mat_shape (nat (iNFreqs_of s)) 1 (matWeight e)) (netEdges net')"
    if w: "\<And>Q j. wgt Q j = transpose_row (map g (coeffs Q ! j))" for wgt and g :: "complex \<Rightarrow> real"
  proof -
    from run_edges [OF assms(1,2) w] assms(3)
    obtain net' s' where r: "calculate_network (edge_step wgt) fft gen net s = Some (net', s')"
        "map endpoints (netEdges net') = upper_pairs (nat (iNRows_of s))"
        "list_all (\<lambda>e. mat_shape (nat (iNFreqs_of s)) 1 (matWeight e)) (netEdges net')"
      by auto
    have "length (map endpoints (netEdges net')) = length (upper_pairs (nat (iNRows_of s)))"
      by (simp only: r(2))
    then have len: "length (netEdges net') = nat (iNRows_of s) * (nat (iNRows_of s) + 1) div 2"
      by (simp add: length_upper_pairs)
    note la = r(3)
    have d: "distinct (map endpoints (netEdges net'))"
      unfolding r(2) by (rule distinct_upper_pairs)
    have st: "set (map endpoints (netEdges net'))
        = {(int i, int j) | i j. i \<le> j \<and> j < nat (iNRows_of s)}"
      unfolding r(2) by (rule set_upper_pairs)
    show ?thesis by (intro exI conjI) (rule r(1) d st len la)+
  qed
  show ?thesis
    unfolding calculateReal_def calculateImag_def computePSDCSDReal_step computePSDCSDImag_step
    by (intro conjI main [where g = cmod] main [where g = Im])
       (simp_all add: weight_real_def weight_imag_def)
qed

theorem one_edge_per_channel_pair_witness:
  "valid_run dft_half ramp_tapers (settings3x2 2) \<and>
   nat (iNRows_of (settings3x2 2)) \<le> length (netNodes (new_network 3)) \<and>
   netEdges (new_network 3) = [] \<and>
   (\<exists>net' s'. calculateReal dft_half ramp_tapers (new_network 3) (settings3x2 2) = Some (net', s') \<and>
      length (netEdges net') = 6 \<and>
      list_all (\<lambda>e. mat_shape 2 1 (matWeight e)) (netEdges net'))"
proof -
  have h1: "valid_run dft_half ramp_tapers (settings3x2 2)" by (rule valid_run_settings3x2)
  have h2: "nat (iNRows_of (settings3x2 2)) \<le> length (netNodes (new_network 3))" by simp
  have h3: "netEdges (new_network 3) = []" by simp
  have n: "iNfft_of (settings3x2 2) = 2"
    by (simp add: iNfft_of_def iSignalLength_of_def settings3x2_def trial3x2_def mk_matrix_def)
  have f: "nat (iNFreqs_of (settings3x2 2)) = 2" by (simp add: iNFreqs_of_div n)
  from one_edge_per_channel_pair [OF h1 h2 h3]
  obtain net' s' where
    r: "calculateReal dft_half ramp_tapers (new_network 3) (settings3x2 2) = Some (net', s')"
      and l: "length (netEdges net')
         = nat (iNRows_of (settings3x2 2)) * (nat (iNRows_of (settings3x2 2)) + 1) div 2"
      and w: "list_all (\<lambda>e. mat_shape (nat (iNFreqs_of (settings3x2 2))) 1 (matWeight e))
                (netEdges net')"
    by blast
  from l have "length (netEdges net') = 6" by simp
  moreover from w have "list_all (\<lambda>e. mat_shape 2 1 (matWeight e)) (netEdges net')"
    unfolding f .
  ultimately show ?thesis using r h1 h2 h3 by blast
qed

text \<open>
  C5 (frequency axis): the effective FFT length is the configured one if that is at
  least the sample count of the first trial, and the sample count otherwise; the number
  of bins is that length divided by two, rounded down, plus one. In a valid run each of
  the three entry points succeeds, and afterwards the PSD matrix and every CSD matrix
  of every trial, the PSD sum and every CSD sum have that many columns, and every edge
  added to the network (for \<^verbatim>\<open>calculate\<close>: every returned coherency matrix) has
  that many bins.
\<close>

theorem frequency_bins_consistent:
  assumes "valid_run fft gen s" and "nat (iNRows_of s) \<le> length (netNodes net)"
  shows "iNfft_of s = (if iSignalLength_of s \<le> m_iNfft s then m_iNfft s else iSignalLength_of s) \<and>
         iNFreqs_of s = iNfft_of s div 2 + 1 \<and>
         (\<exists>net' s'. calculateReal fft gen net s = Some (net', s') \<and>
            bins_settings (nat (iNFreqs_of s)) s' \<and>
            bins_edges (nat (iNFreqs_of s)) (drop (length (netEdges net)) (netEdges net'))) \<and>
         (\<exists>net' s'. calculateImag fft gen net s = Some (net', s') \<and>
            bins_settings (nat (iNFreqs_of s)) s' \<and>
            bins_edges (nat (iNFreqs_of s)) (drop (length (netEdges net)) (netEdges net'))) \<and>
         (\<exists>v s'. calculate fft gen vecCoherency s = Some (v, s') \<and>
            bins_settings (nat (iNFreqs_of s)) s' \<and>
            list_all (\<lambda>p. bins_matrix (nat (iNFreqs_of s)) (snd p)) v)"
proof (intro conjI)
  show "iNfft_of s = (if iSignalLength_of s \<le> m_iNfft s then m_iNfft s else iSignalLength_of s)"
    by (simp add: iNfft_of_def)
  show "iNFreqs_of s = iNfft_of s div 2 + 1" by (rule iNFreqs_of_div)
  show "\<exists>net' s'. calculateReal fft gen net s = Some (net', s') \<and>
            bins_settings (nat (iNFreqs_of s)) s' \<and>
            bins_edges (nat (iNFreqs_of s)) (drop (length (netEdges net)) (netEdges net'))"
    unfolding calculateReal_def computePSDCSDReal_step
    by (rule run_bins [OF assms, where g = cmod]) (simp add: weight_real_def)
  show "\<exists>net' s'. calculateImag fft gen net s = Some (net', s') \<and>
            bins_settings (nat (iNFreqs_of s)) s' \<and>
            bins_edges (nat (iNFreqs_of s)) (drop (length (netEdges net)) (netEdges net'))"
    unfolding calculateImag_def computePSDCSDImag_step
    by (rule run_bins [OF assms, where g = Im]) (simp add: weight_imag_def)
  let ?C = "nat (iNRows_of s)" and ?F = "nat (iNFreqs_of s)"
  from calculate_valid [OF assms(1), of vecCoherency]
  obtain v s' ts psd csd where r: "calculate fft gen vecCoherency s = Some (v, s')"
      "compute_phase fft gen s = Some (ts, psd, csd)"
      "m_dataList s' = ts" "matPsdSum (data s') = cwiseSqrt psd" "vecPairCsdSum (data s') = v"
      "csd_shape ?C ?F v" "list_all (stored_result ?C ?F) ts" "sums_shape ?C ?F psd csd"
    by blast
  have "bins_settings ?F s'"
    using r(3-8) by (intro bins_settings_run [where C = ?C and psd = psd]) (simp_all add: sums_shape_def)
  moreover have "list_all (\<lambda>p. bins_matrix ?F (snd p)) v"
    using r(6) by (rule bins_csd_shape)
  ultimately show "\<exists>v s'. calculate fft gen vecCoherency s = Some (v, s') \<and>
            bins_settings ?F s' \<and> list_all (\<lambda>p. bins_matrix ?F (snd p)) v"
    using r(1) by blast
qed

theorem frequency_bins_consistent_witness:
  "valid_run dft_half ramp_tapers (settings3x2 5) \<and>
   nat (iNRows_of (settings3x2 5)) \<le> length (netNodes (new_network 3)) \<and>
   iNFreqs_of (settings3x2 5) = 3 \<and>
   (\<exists>net' s'. calculateReal dft_half ramp_tapers (new_network 3) (settings3x2 5) = Some (net', s') \<and>
      bins_settings 3 s' \<and> bins_edges 3 (netEdges net'))"
proof -
  have h1: "valid_run dft_half ramp_tapers (settings3x2 5)" by (rule valid_run_settings3x2)
  have h2: "nat (iNRows_of (settings3x2 5)) \<le> length (netNodes (new_network 3))" by simp
  have n: "iNfft_of (settings3x2 5) = 5"
    by (simp add: iNfft_of_def iSignalLength_of_def settings3x2_def trial3x2_def mk_matrix_def)
  have f: "iNFreqs_of (settings3x2 5) = 3" by (simp add: iNFreqs_of_div n)
  from frequency_bins_consistent [OF h1 h2, of "[]"]
  obtain net' s' where
    "calculateReal dft_half ramp_tapers (new_network 3) (settings3x2 5) = Some (net', s')"
    "bins_settings (nat (iNFreqs_of (settings3x2 5))) s'"
    "bins_edges (nat (iNFreqs_of (settings3x2 5)))
       (drop (length (netEdges (new_network 3))) (netEdges net'))"
    by blast
  then have "calculateReal dft_half ramp_tapers (new_network 3) (settings3x2 5) = Some (net', s') \<and>
      bins_settings 3 s' \<and> bins_edges 3 (netEdges net')"
    by (simp add: f)
  with h1 h2 f show ?thesis by blast
qed

text \<open>
  C9 (self-pairs): when \<^verbatim>\<open>computePSDCSDReal\<close> or \<^verbatim>\<open>computePSDCSDImag\<close> handles the
  pair with index \<open>i\<close>, the edge from \<open>i\<close> to \<open>i\<close> is appended to the edge list of node
  \<open>i\<close> twice, once for each end point, and to the edge list of the graph once: it
  occurs two more times in the list of its node and one more time in the list of the
  graph than before the call.
\<close>

theorem self_pair_attached_twice:
  assumes "matCohy pairInput psdSum = Some Q" and "rows Q \<le> length (netNodes net)"
  shows "(\<exists>net'. computePSDCSDReal net pairInput psdSum = Some net' \<and>
            count_list (nodeEdges (netNodes net' ! nat (fst pairInput)))
                (mk_edge (weight_real Q) (fst pairInput) (nat (fst pairInput)))
              = count_list (nodeEdges (netNodes net ! nat (fst pairInput)))
                  (mk_edge (weight_real Q) (fst pairInput) (nat (fst pairInput))) + 2 \<and>
            count_list (netEdges net') (mk_edge (weight_real Q) (fst pairInput) (nat (fst pairInput)))
              = count_list (netEdges net)
                  (mk_edge (weight_real Q) (fst pairInput) (nat (fst pairInput))) + 1) \<and>
         (\<exists>net'. computePSDCSDImag net pairInput psdSum = Some net' \<and>
            count_list (nodeEdges (netNodes net' ! nat (fst pairInput)))
                (mk_edge (weight_imag Q) (fst pairInput) (nat (fst pairInput)))
              = count_list (nodeEdges (netNodes net ! nat (fst pairInput)))
                  (mk_edge (weight_imag Q) (fst pairInput) (nat (fst pairInput))) + 2 \<and>
            count_list (netEdges net') (mk_edge (weight_imag Q) (fst pairInput) (nat (fst pairInput)))
              = count_list (netEdges net)
                  (mk_edge (weight_imag Q) (fst pairInput) (nat (fst pairInput))) + 1)"
  using edge_loop_self [OF matCohy_SomeD [OF assms(1)] assms(2), of "weight_real Q"]
    edge_loop_self [OF matCohy_SomeD [OF assms(1)] assms(2), of "weight_imag Q"]
  by (simp add: computePSDCSDReal_def computePSDCSDImag_def assms(1))

theorem self_pair_attached_twice_witness:
  "matCohy (0, mk_matrix 1 1 [[8]]) (mk_matrix 1 1 [[2]])
     = Some (cwiseQuotient (mk_matrix 1 1 [[8]]) (matPSDtmp (mk_matrix 1 1 [[2]]) 0)) \<and>
   rows (cwiseQuotient (mk_matrix 1 1 [[8]]) (matPSDtmp (mk_matrix 1 1 [[2]]) 0))
     \<le> length (netNodes (new_network 1)) \<and>
   (\<exists>net'. computePSDCSDReal (new_network 1) (0, mk_matrix 1 1 [[8]]) (mk_matrix 1 1 [[2]]) = Some net' \<and>
      count_list (nodeEdges (netNodes net' ! 0))
          (mk_edge (weight_real (cwiseQuotient (mk_matrix 1 1 [[8]]) (matPSDtmp (mk_matrix 1 1 [[2]]) 0))) 0 0)
        = 2 \<and>
      count_list (netEdges net')
          (mk_edge (weight_real (cwiseQuotient (mk_matrix 1 1 [[8]]) (matPSDtmp (mk_matrix 1 1 [[2]]) 0))) 0 0)
        = 1)"
proof -
  let ?p = "(0::int, mk_matrix 1 1 [[8::complex]])"
  let ?psd = "mk_matrix 1 1 [[2::real]]"
  let ?Q = "cwiseQuotient (mk_matrix 1 1 [[8]]) (matPSDtmp ?psd 0)"
  have h1: "matCohy ?p ?psd = Some ?Q"
    by (simp add: matCohy_def same_dims_def matPSDtmp_def mk_matrix_def)
  have h2: "rows ?Q \<le> length (netNodes (new_network 1))"
    by (simp add: cwiseQuotient_def mk_matrix_def)
  from self_pair_attached_twice [OF h1 h2]
  obtain net' where "computePSDCSDReal (new_network 1) ?p ?psd = Some net'"
    "count_list (nodeEdges (netNodes net' ! nat (fst ?p))) (mk_edge (weight_real ?Q) (fst ?p) (nat (fst ?p)))
       = count_list (nodeEdges (netNodes (new_network 1) ! nat (fst ?p)))
           (mk_edge (weight_real ?Q) (fst ?p) (nat (fst ?p))) + 2"
    "count_list (netEdges net') (mk_edge (weight_real ?Q) (fst ?p) (nat (fst ?p)))
       = count_list (netEdges (new_network 1)) (mk_edge (weight_real ?Q) (fst ?p) (nat (fst ?p))) + 1"
    by blast
  then have "computePSDCSDReal (new_network 1) ?p ?psd = Some net' \<and>
      count_list (nodeEdges (netNodes net' ! 0)) (mk_edge (weight_real ?Q) 0 0) = 2 \<and>
      count_list (netEdges net') (mk_edge (weight_real ?Q) 0 0) = 1"
    by (simp add: new_network_def)
  with h1 h2 show ?thesis by blast
qed

text \<open>
  C7 (empty input): with an empty trial list \<^verbatim>\<open>calculateReal\<close>, \<^verbatim>\<open>calculateImag\<close> and
  \<^verbatim>\<open>calculate\<close> return at once and without an error; the network (for \<^verbatim>\<open>calculate\<close>
  the coherency vector) and the settings, the running sums included, are what they were,
  whatever the taper generator and the FFT are: neither is called.
\<close>

theorem empty_trial_list:
  assumes "m_dataList s = []"
  shows "calculateReal fft gen finalNetwork s = Some (finalNetwork, s) \<and>
         calculateImag fft gen finalNetwork s = Some (finalNetwork, s) \<and>
         calculate fft gen vecCoherency s = Some (vecCoherency, s)"
  using assms by (simp add: calculateReal_def calculateImag_def calculate_network_def calculate_def)

theorem empty_trial_list_witness:
  "m_dataList settings_no_trials = [] \<and>
   calculateReal dft_half ramp_tapers (new_network 2) settings_no_trials
     = Some (new_network 2, settings_no_trials) \<and>
   calculateImag dft_half ramp_tapers (new_network 2) settings_no_trials
     = Some (new_network 2, settings_no_trials) \<and>
   calculate dft_half ramp_tapers [] settings_no_trials = Some ([], settings_no_trials)"
proof -
  have h: "m_dataList settings_no_trials = []" by (simp add: settings_no_trials_def)
  from empty_trial_list [OF h] h show ?thesis by simp
qed

text \<open>
  C3 (merging and the square root), as the code has it. A trial that is not skipped is
  merged as follows: a PSD sum without rows or without columns becomes a copy of the
  PSD of the trial, any other PSD sum has the PSD of the trial added element by element;
  an empty list of CSD sums becomes a copy of the CSD list of the trial, any other list
  keeps its length and its indices and has the CSD matrix of the trial added to each
  entry, element by element. No square root is taken in a merge. Each entry point takes
  the element-wise square root of the PSD sum once per call, after all trials were
  processed, stores it, and normalises with that stored matrix.
\<close>

theorem merge_copies_or_adds_sqrt_once:
  "(\<not> already_computed t R F \<and> compute fft t psd csd R F n tp = Some (t', psd', csd') \<longrightarrow>
      psd' = (if rows psd = 0 \<or> cols psd = 0 then matPsd t' else mat_add psd (matPsd t')) \<and>
      (csd = [] \<longrightarrow> csd' = vecPairCsd t') \<and>
      (csd \<noteq> [] \<longrightarrow> length csd' = length csd \<and>
         (\<forall>j < length csd. csd' ! j
             = (fst (csd ! j), mat_add (snd (csd ! j)) (snd (vecPairCsd t' ! j)))))) \<and>
   (m_dataList s \<noteq> [] \<and> calculateReal fft gen net s = Some (net', s') \<longrightarrow>
      (\<exists>ts psdSum csdSum. compute_phase fft gen s = Some (ts, psdSum, csdSum) \<and>
         matPsdSum (data s') = cwiseSqrt psdSum \<and> vecPairCsdSum (data s') = csdSum \<and>
         map_network computePSDCSDReal net csdSum (cwiseSqrt psdSum) = Some net')) \<and>
   (m_dataList s \<noteq> [] \<and> calculateImag fft gen net s = Some (net', s') \<longrightarrow>
      (\<exists>ts psdSum csdSum. compute_phase fft gen s = Some (ts, psdSum, csdSum) \<and>
         matPsdSum (data s') = cwiseSqrt psdSum \<and> vecPairCsdSum (data s') = csdSum \<and>
         map_network computePSDCSDImag net csdSum (cwiseSqrt psdSum) = Some net')) \<and>
   (m_dataList s \<noteq> [] \<and> calculate fft gen v0 s = Some (v, s') \<longrightarrow>
      (\<exists>ts psdSum csdSum. compute_phase fft gen s = Some (ts, psdSum, csdSum) \<and>
         matPsdSum (data s') = cwiseSqrt psdSum \<and>
         map_computePSDCSD csdSum (cwiseSqrt psdSum) = Some v))"
proof (intro conjI impI)
  assume a: "\<not> already_computed t R F \<and> compute fft t psd csd R F n tp = Some (t', psd', csd')"
  note m = compute_merge [of t R F fft psd csd n tp t' psd' csd']
  from m a
  show "psd' = (if rows psd = 0 \<or> cols psd = 0 then matPsd t' else mat_add psd (matPsd t'))"
    by blast
  from m a show "csd' = vecPairCsd t'" if "csd = []"
    using that by blast
  from m a show "length csd' = length csd" if "csd \<noteq> []"
    using that by blast
  from m a
  show "\<forall>j < length csd. csd' ! j = (fst (csd ! j), mat_add (snd (csd ! j)) (snd (vecPairCsd t' ! j)))"
    if "csd \<noteq> []"
    using that by blast
next
  assume "m_dataList s \<noteq> [] \<and> calculateReal fft gen net s = Some (net', s')"
  then show "\<exists>ts psdSum csdSum. compute_phase fft gen s = Some (ts, psdSum, csdSum) \<and>
         matPsdSum (data s') = cwiseSqrt psdSum \<and> vecPairCsdSum (data s') = csdSum \<and>
         map_network computePSDCSDReal net csdSum (cwiseSqrt psdSum) = Some net'"
    using calculate_network_SomeD [of computePSDCSDReal fft gen net s net' s']
    by (auto simp: calculateReal_def)
next
  assume "m_dataList s \<noteq> [] \<and> calculateImag fft gen net s = Some (net', s')"
  then show "\<exists>ts psdSum csdSum. compute_phase fft gen s = Some (ts, psdSum, csdSum) \<and>
         matPsdSum (data s') = cwiseSqrt psdSum \<and> vecPairCsdSum (data s') = csdSum \<and>
         map_network computePSDCSDImag net csdSum (cwiseSqrt psdSum) = Some net'"
    using calculate_network_SomeD [of computePSDCSDImag fft gen net s net' s']
    by (auto simp: calculateImag_def)
next
  assume "m_dataList s \<noteq> [] \<and> calculate fft gen v0 s = Some (v, s')"
  then show "\<exists>ts psdSum csdSum. compute_phase fft gen s = Some (ts, psdSum, csdSum) \<and>
         matPsdSum (data s') = cwiseSqrt psdSum \<and>
         map_computePSDCSD csdSum (cwiseSqrt psdSum) = Some v"
    using calculate_SomeD [of fft gen v0 s v s'] by auto
qed

theorem merge_copies_or_adds_sqrt_once_witness:
  "\<exists>t' psd' csd' net' s' netI sI v sv.
     (\<not> already_computed trial2x2 2 2 \<and>
      compute dft_half trial2x2 (matPsdSum (data settings_kept)) (vecPairCsdSum (data settings_kept))
        2 2 2 (ramp_tapers 2 ''hanning'') = Some (t', psd', csd')) \<and>
     psd' = mat_add (matPsdSum (data settings_kept)) (matPsd t') \<and>
     length csd' = 2 \<and>
     (m_dataList settings_kept \<noteq> [] \<and>
      calculateReal dft_half ramp_tapers (new_network 2) settings_kept = Some (net', s')) \<and>
     (\<exists>ts psdSum csdSum.
        compute_phase dft_half ramp_tapers settings_kept = Some (ts, psdSum, csdSum) \<and>
        matPsdSum (data s') = cwiseSqrt psdSum) \<and>
     (m_dataList settings_kept \<noteq> [] \<and>
      calculateImag dft_half ramp_tapers (new_network 2) settings_kept = Some (netI, sI)) \<and>
     (\<exists>ts psdSum csdSum.
        compute_phase dft_half ramp_tapers settings_kept = Some (ts, psdSum, csdSum) \<and>
        matPsdSum (data sI) = cwiseSqrt psdSum) \<and>
     (m_dataList settings_kept \<noteq> [] \<and>
      calculate dft_half ramp_tapers [] settings_kept = Some (v, sv)) \<and>
     (\<exists>ts psdSum csdSum.
        compute_phase dft_half ramp_tapers settings_kept = Some (ts, psdSum, csdSum) \<and>
        matPsdSum (data sv) = cwiseSqrt psdSum)"
proof -
  let ?P = "matPsdSum (data settings_kept)" and ?C = "vecPairCsdSum (data settings_kept)"
  let ?tp = "ramp_tapers 2 ''hanning''"
  from compute_trial2x2_kept obtain t' psd' csd' where
    c: "compute dft_half trial2x2 ?P ?C 2 2 2 ?tp = Some (t', psd', csd')"
    by blast
  have ne: "m_dataList settings_kept \<noteq> []" by (simp add: settings_kept_def)
  have nodes: "nat (iNRows_of settings_kept) \<le> length (netNodes (new_network 2))"
    by (simp add: settings_kept_values)
  from calculate_network_valid [OF valid_run_settings_kept nodes, of weight_real]
  obtain net' s' where
    r: "calculateReal dft_half ramp_tapers (new_network 2) settings_kept = Some (net', s')"
    unfolding calculateReal_def computePSDCSDReal_step by blast
  from calculate_network_valid [OF valid_run_settings_kept nodes, of weight_imag]
  obtain netI sI where
    i: "calculateImag dft_half ramp_tapers (new_network 2) settings_kept = Some (netI, sI)"
    unfolding calculateImag_def computePSDCSDImag_step by blast
  from calculate_valid [OF valid_run_settings_kept, of "[]"]
  obtain v sv where
    k: "calculate dft_half ramp_tapers [] settings_kept = Some (v, sv)"
    by blast
  have dims: "rows ?P \<noteq> 0" "cols ?P \<noteq> 0" "?C \<noteq> []" "length ?C = 2"
    by (simp_all add: settings_kept_def mk_matrix_def)
  note th = merge_copies_or_adds_sqrt_once
    [where t = trial2x2 and R = 2 and F = 2 and fft = dft_half and psd = ?P and csd = ?C
       and n = 2 and tp = ?tp and t' = t' and psd' = psd' and csd' = csd'
       and s = settings_kept and gen = ramp_tapers and net = "new_network 2" and ?v0.0 = "[]"
       and v = v]
  from th [of net' s'] trial2x2_not_computed c dims
  have a: "psd' = mat_add ?P (matPsd t')" "length csd' = 2" by simp_all
  from th [of net' s'] ne r
  have b: "\<exists>ts psdSum csdSum.
        compute_phase dft_half ramp_tapers settings_kept = Some (ts, psdSum, csdSum) \<and>
        matPsdSum (data s') = cwiseSqrt psdSum"
    by blast
  from th [of netI sI] ne i
  have d: "\<exists>ts psdSum csdSum.
        compute_phase dft_half ramp_tapers settings_kept = Some (ts, psdSum, csdSum) \<and>
        matPsdSum (data sI) = cwiseSqrt psdSum"
    by blast
  from th [of net' sv] ne k
  have e: "\<exists>ts psdSum csdSum.
        compute_phase dft_half ramp_tapers settings_kept = Some (ts, psdSum, csdSum) \<and>
        matPsdSum (data sv) = cwiseSqrt psdSum"
    by blast
  from trial2x2_not_computed c a ne r b i d k e show ?thesis by blast
qed

text \<open>
  C3 as stated fails where the sums are kept from an earlier call: in the run on
  \<^const>\<open>settings_kept\<close> the first trial is skipped, the merge of the second trial is
  the first merge of the run, and it adds to the sums kept; the PSD sum after the
  trials is not a copy of the PSD of that trial.
\<close>

theorem first_merge_counterexample:
  "compute_phase dft_half ramp_tapers settings_kept \<noteq> None \<and>
   fst (snd (the (compute_phase dft_half ramp_tapers settings_kept)))
     \<noteq> matPsd (last (fst (the (compute_phase dft_half ramp_tapers settings_kept))))"
proof -
  let ?P = "matPsdSum (data settings_kept)"
  from compute_phase_settings_kept obtain t' csd' where
    r: "compute_phase dft_half ramp_tapers settings_kept
          = Some ([trial2x2_stored, t'], mat_add ?P (matPsd t'), csd')"
    and sh: "mat_shape 2 2 (matPsd t')"
    by blast
  have len: "length (coeffs (matPsd t')) = 2" "length (coeffs (matPsd t') ! 0) = 2"
    using sh mat_shape_nth [OF sh, of 0] by (simp_all add: mat_shape_length)
  have "coeffs (mat_add ?P (matPsd t')) ! 0 ! 0 = coeffs ?P ! 0 ! 0 + coeffs (matPsd t') ! 0 ! 0"
    by (rule nth_mat_add) (simp_all add: len settings_kept_def mk_matrix_def)
  then have "coeffs (mat_add ?P (matPsd t')) ! 0 ! 0 = 2 + coeffs (matPsd t') ! 0 ! 0"
    by (simp add: settings_kept_def mk_matrix_def)
  then have ne: "mat_add ?P (matPsd t') \<noteq> matPsd t'" by auto
  show ?thesis unfolding r using ne by simp
qed

text \<open>
  C10 (a call on memoized trials), as the code has it. When every trial takes the
  early return, the trial phase leaves the trials and both sums as they are. A call of
  \<^verbatim>\<open>calculateReal\<close> or \<^verbatim>\<open>calculateImag\<close> then replaces the stored PSD sum by its
  element-wise square root and leaves the CSD sums unchanged; a call of \<^verbatim>\<open>calculate\<close>
  replaces the PSD sum in the same way and stores in the CSD sums the quotients it
  returns. After a call in a valid run every trial is memoized, so this is what a second
  call on the same settings does.
\<close>

theorem memoized_call_takes_sqrt_again:
  "(all_memoized s \<longrightarrow>
      compute_phase fft gen s = Some (m_dataList s, matPsdSum (data s), vecPairCsdSum (data s))) \<and>
   (all_memoized s \<and> calculateReal fft gen net s = Some (net', s') \<longrightarrow>
      matPsdSum (data s') = cwiseSqrt (matPsdSum (data s)) \<and>
      vecPairCsdSum (data s') = vecPairCsdSum (data s)) \<and>
   (all_memoized s \<and> calculateImag fft gen net s = Some (net', s') \<longrightarrow>
      matPsdSum (data s') = cwiseSqrt (matPsdSum (data s)) \<and>
      vecPairCsdSum (data s') = vecPairCsdSum (data s)) \<and>
   (all_memoized s \<and> calculate fft gen v0 s = Some (v, s') \<longrightarrow>
      matPsdSum (data s') = cwiseSqrt (matPsdSum (data s)) \<and>
      vecPairCsdSum (data s') = v \<and>
      map_computePSDCSD (vecPairCsdSum (data s)) (cwiseSqrt (matPsdSum (data s))) = Some v) \<and>
   (valid_run fft gen s \<and>
      (calculateReal fft gen net s = Some (net', s') \<or>
       calculateImag fft gen net s = Some (net', s') \<or>
       calculate fft gen v0 s = Some (v, s')) \<longrightarrow> all_memoized s')"
proof (intro conjI impI)
  assume "all_memoized s"
  then show "compute_phase fft gen s
      = Some (m_dataList s, matPsdSum (data s), vecPairCsdSum (data s))"
    by (rule compute_phase_all_early)
next
  assume a: "all_memoized s \<and> calculateReal fft gen net s = Some (net', s')"
  then have ne: "m_dataList s \<noteq> []" by (simp add: all_memoized_def)
  from a calculate_network_SomeD [of computePSDCSDReal fft gen net s net' s', OF _ ne]
    compute_phase_all_early [of s fft gen]
  show "matPsdSum (data s') = cwiseSqrt (matPsdSum (data s))"
    and "vecPairCsdSum (data s') = vecPairCsdSum (data s)"
    by (auto simp: calculateReal_def)
next
  assume a: "all_memoized s \<and> calculateImag fft gen net s = Some (net', s')"
  then have ne: "m_dataList s \<noteq> []" by (simp add: all_memoized_def)
  from a calculate_network_SomeD [of computePSDCSDImag fft gen net s net' s', OF _ ne]
    compute_phase_all_early [of s fft gen]
  show "matPsdSum (data s') = cwiseSqrt (matPsdSum (data s))"
    and "vecPairCsdSum (data s') = vecPairCsdSum (data s)"
    by (auto simp: calculateImag_def)
next
  assume a: "all_memoized s \<and> calculate fft gen v0 s = Some (v, s')"
  then have ne: "m_dataList s \<noteq> []" by (simp add: all_memoized_def)
  from a calculate_SomeD [of fft gen v0 s v s', OF _ ne] compute_phase_all_early [of s fft gen]
  show "matPsdSum (data s') = cwiseSqrt (matPsdSum (data s))"
    and "vecPairCsdSum (data s') = v"
    and "map_computePSDCSD (vecPairCsdSum (data s)) (cwiseSqrt (matPsdSum (data s))) = Some v"
    by auto
next
  assume a: "valid_run fft gen s \<and>
      (calculateReal fft gen net s = Some (net', s') \<or>
       calculateImag fft gen net s = Some (net', s') \<or>
       calculate fft gen v0 s = Some (v, s'))"
  then have v: "valid_run fft gen s" and ne: "m_dataList s \<noteq> []"
    by (simp_all add: valid_run_def)
  from a have "\<exists>ts psd csd d. compute_phase fft gen s = Some (ts, psd, csd) \<and>
      s' = s\<lparr>m_dataList := ts, data := d\<rparr>"
    using calculate_network_SomeD [of computePSDCSDReal fft gen net s net' s', OF _ ne]
      calculate_network_SomeD [of computePSDCSDImag fft gen net s net' s', OF _ ne]
      calculate_SomeD [of fft gen v0 s v s', OF _ ne]
    unfolding calculateReal_def calculateImag_def by blast
  then show "all_memoized s'" using all_memoized_after [OF v] by blast
qed

theorem memoized_call_takes_sqrt_again_witness:
  "\<exists>net' s' netI sI v sv net1 s1.
     (all_memoized settings_after \<and>
      calculateReal dft_half ramp_tapers (new_network 2) settings_after = Some (net', s')) \<and>
     matPsdSum (data s') = cwiseSqrt (matPsdSum (data settings_after)) \<and>
     vecPairCsdSum (data s') = vecPairCsdSum (data settings_after) \<and>
     (all_memoized settings_after \<and>
      calculateImag dft_half ramp_tapers (new_network 2) settings_after = Some (netI, sI)) \<and>
     matPsdSum (data sI) = cwiseSqrt (matPsdSum (data settings_after)) \<and>
     vecPairCsdSum (data sI) = vecPairCsdSum (data settings_after) \<and>
     (all_memoized settings_after \<and>
      calculate dft_half ramp_tapers [] settings_after = Some (v, sv)) \<and>
     matPsdSum (data sv) = cwiseSqrt (matPsdSum (data settings_after)) \<and>
     vecPairCsdSum (data sv) = v \<and>
     (valid_run dft_half ramp_tapers (settings2x2 2) \<and>
      calculateReal dft_half ramp_tapers (new_network 2) (settings2x2 2) = Some (net1, s1)) \<and>
     all_memoized s1"
proof -
  have nodes: "nat (iNRows_of settings_after) \<le> length (netNodes (new_network 2))"
    by (simp add: settings_after_values)
  have nodes2: "nat (iNRows_of (settings2x2 2)) \<le> length (netNodes (new_network 2))"
    by simp
  note m = all_memoized_settings_after
  from calculate_network_valid [OF valid_run_settings_after nodes, of weight_real]
  obtain net' s' where
    r: "calculateReal dft_half ramp_tapers (new_network 2) settings_after = Some (net', s')"
    unfolding calculateReal_def computePSDCSDReal_step by blast
  from calculate_network_valid [OF valid_run_settings_after nodes, of weight_imag]
  obtain netI sI where
    i: "calculateImag dft_half ramp_tapers (new_network 2) settings_after = Some (netI, sI)"
    unfolding calculateImag_def computePSDCSDImag_step by blast
  from calculate_valid [OF valid_run_settings_after, of "[]"]
  obtain v sv where
    k: "calculate dft_half ramp_tapers [] settings_after = Some (v, sv)"
    by blast
  from calculate_network_valid [OF valid_run_settings2x2 nodes2, of weight_real]
  obtain net1 s1 where
    f: "calculateReal dft_half ramp_tapers (new_network 2) (settings2x2 2) = Some (net1, s1)"
    unfolding calculateReal_def computePSDCSDReal_step by blast
  note th = memoized_call_takes_sqrt_again
    [where fft = dft_half and gen = ramp_tapers and net = "new_network 2"]
  from th [where s = settings_after and net' = net' and s' = s'] m r
  have a: "matPsdSum (data s') = cwiseSqrt (matPsdSum (data settings_after))"
    "vecPairCsdSum (data s') = vecPairCsdSum (data settings_after)"
    by blast+
  from th [where s = settings_after and net' = netI and s' = sI] m i
  have b: "matPsdSum (data sI) = cwiseSqrt (matPsdSum (data settings_after))"
    "vecPairCsdSum (data sI) = vecPairCsdSum (data settings_after)"
    by blast+
  from th [where s = settings_after and s' = sv and ?v0.0 = "[]" and v = v] m k
  have c: "matPsdSum (data sv) = cwiseSqrt (matPsdSum (data settings_after))"
    "vecPairCsdSum (data sv) = v"
    by blast+
  from th [where s = "settings2x2 2" and net' = net1 and s' = s1] valid_run_settings2x2 [of 2] f
  have d: "all_memoized s1" by blast
  from m r a i b k c valid_run_settings2x2 [of 2] f d show ?thesis by blast
qed

text \<open>
  C10 as stated fails for \<^verbatim>\<open>calculate\<close>: on \<^const>\<open>settings_after\<close>, where the only
  trial is memoized, the call succeeds and the CSD sums it leaves differ from the ones it
  found (8 divided by the product of two square roots of 2 is 4).
\<close>

theorem calculate_overwrites_csd_sums_counterexample:
  "calculate dft_half ramp_tapers [] settings_after \<noteq> None \<and>
   vecPairCsdSum (data (snd (the (calculate dft_half ramp_tapers [] settings_after))))
     \<noteq> vecPairCsdSum (data settings_after)"
proof -
  from calculate_valid [OF valid_run_settings_after, of "[]"]
  obtain v sv where k: "calculate dft_half ramp_tapers [] settings_after = Some (v, sv)"
    and sv: "vecPairCsdSum (data sv) = v"
    by blast
  have ne: "m_dataList settings_after \<noteq> []" by (simp add: settings_after_def)
  from calculate_SomeD [OF k ne]
    compute_phase_all_early [OF all_memoized_settings_after, of dft_half ramp_tapers]
  have "map_computePSDCSD (vecPairCsdSum (data settings_after))
          (cwiseSqrt (matPsdSum (data settings_after))) = Some v"
    by auto
  then have v: "v = [(0, mk_matrix 2 2 [[4, 4], [4, 4]]), (1, mk_matrix 2 2 [[4, 4], [4, 4]])]"
    unfolding normalised_settings_after by simp
  have "v \<noteq> vecPairCsdSum (data settings_after)"
    unfolding v by (simp add: settings_after_def mk_matrix_def)
  with k sv show ?thesis by simp
qed




text \<open>
  C1 (spectra of one trial): when \<^verbatim>\<open>compute\<close> processes a trial that is not memoized and
  returns, the trial has a PSD matrix of \<open>iNRows\<close> x \<open>iNFreqs\<close> and \<open>iNRows\<close> new CSD
  pairs. For channel \<open>i\<close> the spectrum of taper \<open>m\<close> is the FFT of length \<open>iNfft\<close> of
  the demeaned row multiplied element by element with the taper, scaled by the weight of
  the taper. Bin \<open>k\<close> of PSD row \<open>i\<close> is the sum over the tapers of the squared
  magnitudes, divided by half the sum of the squared weights; bin \<open>k\<close> of row \<open>j\<close> of
  the CSD matrix of pair \<open>i\<close>, for \<open>i \<le> j\<close>, is the sum over the tapers of the spectrum
  of \<open>i\<close> times the conjugate of the spectrum of \<open>j\<close>, divided by the same number. In
  both, bin 0 is divided by 2 once more, and so is the last bin when \<open>iNfft\<close> is even;
  no other bin is. (Rows \<open>j < i\<close> of the CSD matrix of pair \<open>i\<close> keep what earlier
  iterations left there and are not part of the statement.)
\<close>

theorem compute_psd_and_csd:
  assumes "\<not> already_computed inputData iNRows iNFreqs"
    and "compute fft inputData psdSum csdAvg iNRows iNFreqs iNfft tapers = Some (t', psd', csd')"
    and "i < nat iNRows" and "k < nat iNFreqs"
  shows "rows (matPsd t') = nat iNRows \<and> cols (matPsd t') = nat iNFreqs \<and>
         length (vecPairCsd t') = length (vecPairCsd inputData) + nat iNRows \<and>
         (\<forall>m < rows (fst tapers).
            tapSpectra fft iNfft tapers (matData inputData) i ! m
              = map (\<lambda>z. z * complex_of_real (snd tapers ! m))
                  (fft iNfft (map2 (*) (demean (coeffs (matData inputData) ! i))
                                       (coeffs (fst tapers) ! m)))) \<and>
         coeffs (matPsd t') ! i ! k
           = (\<Sum>m<rows (fst tapers).
                (cmod (tapSpectra fft iNfft tapers (matData inputData) i ! m ! k))\<^sup>2)
               / (sum_abs2 (snd tapers) / 2)
               / (if k = 0 then 2 else 1)
               / (if iNfft mod 2 = 0 \<and> k = nat iNFreqs - 1 then 2 else 1) \<and>
         (\<forall>j. i \<le> j \<and> j < nat iNRows \<longrightarrow>
            fst (vecPairCsd t' ! (length (vecPairCsd inputData) + i)) = int i \<and>
            coeffs (snd (vecPairCsd t' ! (length (vecPairCsd inputData) + i))) ! j ! k
              = (\<Sum>m<rows (fst tapers).
                   tapSpectra fft iNfft tapers (matData inputData) i ! m ! k
                     * cnj (tapSpectra fft iNfft tapers (matData inputData) j ! m ! k))
                  / complex_of_real (sum_abs2 (snd tapers) / 2)
                  / (if k = 0 then 2 else 1)
                  / (if iNfft mod 2 = 0 \<and> k = nat iNFreqs - 1 then 2 else 1))"
proof -
  note ok = compute_SomeD(1) [OF assms(1,2)] and t' = compute_SomeD(2) [OF assms(1,2)]
  let ?D = "matData inputData"
  let ?new = "csd_outer (csd_row fft iNfft (nat iNFreqs) tapers ?D) (nat iNRows) (nat iNFreqs)
                (replicate (nat iNRows) (replicate (nat iNFreqs) 0)) [0..<nat iNRows]"
  have dims: "rows (matPsd t') = nat iNRows" "cols (matPsd t') = nat iNFreqs"
    unfolding t' matPsd_compute_trial by (simp_all add: mk_matrix_def)
  have len: "length (vecPairCsd t') = length (vecPairCsd inputData) + nat iNRows"
    unfolding t' vecPairCsd_compute_trial by simp
  have spec: "\<forall>m < rows (fst tapers).
            tapSpectra fft iNfft tapers ?D i ! m
              = map (\<lambda>z. z * complex_of_real (snd tapers ! m))
                  (fft iNfft (map2 (*) (demean (coeffs ?D ! i)) (coeffs (fst tapers) ! m)))"
    by (simp add: tapSpectra_nth)
  have "coeffs (matPsd t') ! i = psd_row fft iNfft (nat iNFreqs) tapers ?D i"
    unfolding t' matPsd_compute_trial using assms(3) by (simp add: mk_matrix_def)
  then have psd: "coeffs (matPsd t') ! i ! k
           = (\<Sum>m<rows (fst tapers). (cmod (tapSpectra fft iNfft tapers ?D i ! m ! k))\<^sup>2)
               / (sum_abs2 (snd tapers) / 2)
               / (if k = 0 then 2 else 1)
               / (if iNfft mod 2 = 0 \<and> k = nat iNFreqs - 1 then 2 else 1)"
    by (simp only: psd_row_nth [OF ok assms(3,4)])
  have nth: "vecPairCsd t' ! (length (vecPairCsd inputData) + i) = ?new ! i"
    unfolding t' vecPairCsd_compute_trial by simp
  have csd: "fst (vecPairCsd t' ! (length (vecPairCsd inputData) + i)) = int i \<and>
            coeffs (snd (vecPairCsd t' ! (length (vecPairCsd inputData) + i))) ! j ! k
              = (\<Sum>m<rows (fst tapers).
                   tapSpectra fft iNfft tapers ?D i ! m ! k
                     * cnj (tapSpectra fft iNfft tapers ?D j ! m ! k))
                  / complex_of_real (sum_abs2 (snd tapers) / 2)
                  / (if k = 0 then 2 else 1)
                  / (if iNfft mod 2 = 0 \<and> k = nat iNFreqs - 1 then 2 else 1)"
    if j: "i \<le> j \<and> j < nat iNRows" for j
  proof -
    from j have j1: "i \<le> j" and j2: "j < nat iNRows" by simp_all
    have "length (replicate (nat iNRows) (replicate (nat iNFreqs) (0::complex))) = nat iNRows"
      by simp
    from csd_outer_upper [OF assms(3) j1 j2 this]
    show ?thesis unfolding nth
      by (simp only: csd_row_nth [OF ok assms(3) j2 assms(4)])
  qed
  from dims len spec psd csd show ?thesis by blast
qed

theorem compute_psd_and_csd_witness:
  "\<exists>t' psd' csd'.
     \<not> already_computed trial2x2 2 2 \<and>
     compute dft_half trial2x2 empty_matrix [] 2 2 2 (ramp_tapers 2 ''hanning'')
       = Some (t', psd', csd') \<and>
     (0::nat) < nat 2 \<and> (1::nat) < nat 2 \<and>
     rows (matPsd t') = 2 \<and> cols (matPsd t') = 2 \<and> length (vecPairCsd t') = 2 \<and>
     coeffs (matPsd t') ! 0 ! 1 = 9"
proof -
  let ?tp = "ramp_tapers 2 ''hanning''"
  from compute_trial2x2_fresh obtain t' psd' csd' where
    c: "compute dft_half trial2x2 empty_matrix [] 2 2 2 ?tp = Some (t', psd', csd')"
    by blast
  have h3: "(0::nat) < nat 2" and h4: "(1::nat) < nat 2" by simp_all
  from compute_psd_and_csd [OF trial2x2_not_computed c h3 h4]
  have r: "rows (matPsd t') = nat 2" "cols (matPsd t') = nat 2"
    "length (vecPairCsd t') = length (vecPairCsd trial2x2) + nat 2"
    "coeffs (matPsd t') ! 0 ! 1
       = (\<Sum>m<rows (fst ?tp). (cmod (tapSpectra dft_half 2 ?tp (matData trial2x2) 0 ! m ! 1))\<^sup>2)
           / (sum_abs2 (snd ?tp) / 2)
           / (if (1::nat) = 0 then 2 else 1)
           / (if (2::int) mod 2 = 0 \<and> (1::nat) = nat 2 - 1 then 2 else 1)"
    by blast+
  have k: "rows (fst ?tp) = 1" "sum_abs2 (snd ?tp) = 1" "vecPairCsd trial2x2 = []"
    by (simp_all add: ramp_tapers_def mk_matrix_def sum_abs2_def trial2x2_def)
  have v: "coeffs (matPsd t') ! 0 ! 1 = 9"
    unfolding r(4) k by (simp add: tapSpectra_trial2x2)
  from trial2x2_not_computed c h3 h4 r(1-3) v show ?thesis unfolding k by auto
qed



end
